theory Spec2Isabelle
  imports Main
begin

section \<open>Python text primitives used by the program\<close>

text \<open>
  Strings are lists of characters; a character stands for a code point below 256.  The
  UTF-8 encoding of the files, a bijection on text, is not modelled.  Integers are
  Python's unbounded integers; the interpreter's limit on the number of digits that
  \<open>int\<close> and \<open>str\<close> convert is not modelled.
\<close>

definition is_space :: "char \<Rightarrow> bool" where
  \<comment> \<open>\<open>str.isspace\<close> on one character: tab, LF, VT, FF, CR, the separators
      0x1c to 0x1f, space, NEL (0x85) and no-break space (0xa0).\<close>
  "is_space c = ((of_char c :: nat) \<in> {9, 10, 11, 12, 13, 28, 29, 30, 31, 32, 133, 160})"

definition strip :: "string \<Rightarrow> string" where
  \<comment> \<open>\<open>str.strip()\<close>\<close>
  "strip s = rev (dropWhile is_space (rev (dropWhile is_space s)))"

definition is_number_space :: "char \<Rightarrow> bool" where
  \<comment> \<open>the whitespace that \<open>int\<close> and \<open>float\<close> skip around a number: that of
      \<open>str.isspace\<close> without the separators 0x1c to 0x1f\<close>
  "is_number_space c = ((of_char c :: nat) \<in> {9, 10, 11, 12, 13, 32, 133, 160})"

definition strip_number :: "string \<Rightarrow> string" where
  "strip_number s = rev (dropWhile is_number_space (rev (dropWhile is_number_space s)))"

definition lower_char :: "char \<Rightarrow> char" where
  "lower_char c =
     (let n = (of_char c :: nat) in
      if (65 \<le> n \<and> n \<le> 90) \<or> (192 \<le> n \<and> n \<le> 222 \<and> n \<noteq> 215)
      then char_of (n + 32) else c)"

definition lower :: "string \<Rightarrow> string" where
  \<comment> \<open>\<open>str.lower()\<close>\<close>
  "lower s = map lower_char s"

fun split_sep :: "string \<Rightarrow> string list" where
  \<comment> \<open>\<open>s.split(', ')\<close>: the leftmost occurrences of comma-space, never
      overlapping; the empty string gives one empty field.\<close>
  "split_sep [] = [[]]"
| "split_sep (c # cs) =
     (case cs of
        d # ds \<Rightarrow>
          if c = CHR '','' \<and> d = CHR '' '' then [] # split_sep ds
          else (case split_sep cs of [] \<Rightarrow> [[c]] | f # fs \<Rightarrow> (c # f) # fs)
      | [] \<Rightarrow> [[c]])"

definition digit_char :: "nat \<Rightarrow> char" where
  "digit_char d = char_of (48 + d)"

fun str_nat :: "nat \<Rightarrow> string" where
  "str_nat n = (if n < 10 then [digit_char n] else str_nat (n div 10) @ [digit_char (n mod 10)])"

declare str_nat.simps [simp del]

definition str_int :: "int \<Rightarrow> string" where
  \<comment> \<open>\<open>str(i)\<close>, which an f-string applies to an integer\<close>
  "str_int i = (if i < 0 then CHR ''-'' # str_nat (nat (- i)) else str_nat (nat i))"

definition is_digit :: "char \<Rightarrow> bool" where
  "is_digit c = (48 \<le> (of_char c :: nat) \<and> (of_char c :: nat) \<le> 57)"

definition digit_val :: "char \<Rightarrow> nat" where
  "digit_val c = of_char c - 48"

fun parse_digits :: "nat \<Rightarrow> string \<Rightarrow> nat option" where
  \<comment> \<open>the rest of a decimal literal after a digit: digits, each of which may be
      preceded by one underscore\<close>
  "parse_digits acc [] = Some acc"
| "parse_digits acc (c # cs) =
     (if c = CHR ''_'' then
        (case cs of
           [] \<Rightarrow> None
         | d # ds \<Rightarrow> if is_digit d then parse_digits (acc * 10 + digit_val d) ds else None)
      else if is_digit c then parse_digits (acc * 10 + digit_val c) cs
      else None)"

definition parse_nat :: "string \<Rightarrow> nat option" where
  "parse_nat s =
     (case s of
        [] \<Rightarrow> None
      | c # cs \<Rightarrow> if is_digit c then parse_digits (digit_val c) cs else None)"

definition parse_signed :: "string \<Rightarrow> int option" where
  \<comment> \<open>a decimal integer literal with at most one sign\<close>
  "parse_signed s =
     (case s of
        [] \<Rightarrow> None
      | c # cs \<Rightarrow>
          if c = CHR ''-'' then map_option (\<lambda>n. - int n) (parse_nat cs)
          else if c = CHR ''+'' then map_option int (parse_nat cs)
          else map_option int (parse_nat (c # cs)))"

definition py_int :: "string \<Rightarrow> int option" where
  \<comment> \<open>\<open>int(s)\<close> on a string; \<open>None\<close> stands for the ValueError.  Surrounding
      whitespace is ignored.\<close>
  "py_int s = parse_signed (strip_number s)"

subsection \<open>Floating-point numbers\<close>

text \<open>
  The program computes prices with Python floats.  Their arithmetic, their \<open>repr\<close>
  and their parser belong to the interpreter, so they are parameters of the model: a type
  \<open>'f\<close> of float values and the operations the program applies to them.
\<close>

record 'f float_ops =
  float_of_int :: "int \<Rightarrow> 'f"            \<comment> \<open>an integer operand promoted to float\<close>
  int_truediv :: "int \<Rightarrow> int \<Rightarrow> 'f"      \<comment> \<open>\<open>a / b\<close> on two integers\<close>
  float_add :: "'f \<Rightarrow> 'f \<Rightarrow> 'f"
  float_mul :: "'f \<Rightarrow> 'f \<Rightarrow> 'f"
  float_lt :: "'f \<Rightarrow> 'f \<Rightarrow> bool"
  float_is_zero :: "'f \<Rightarrow> bool"          \<comment> \<open>\<open>x == 0\<close>\<close>
  float_repr :: "'f \<Rightarrow> string"            \<comment> \<open>\<open>str(x)\<close>, as an f-string prints it\<close>
  float_parse :: "string \<Rightarrow> 'f option"    \<comment> \<open>\<open>float(s)\<close>; \<open>None\<close> is the ValueError\<close>

section \<open>Data model\<close>

record 'f product =
  p_id :: int
  p_name :: string
  p_brand :: string
  p_stock :: int
  p_cost_price :: 'f
  p_origin :: string

record 'f sale_item =
  s_id :: int
  s_name :: string
  s_brand :: string
  s_quantity :: int
  s_free_items :: int
  s_price :: 'f
  s_total :: 'f

record 'f restock_item =
  r_id :: "int option"       \<comment> \<open>\<open>None\<close> for a new product\<close>
  r_name :: string
  r_brand :: string
  r_quantity :: int
  r_cost_price :: 'f
  r_origin :: string

section \<open>Sale lines (main.py)\<close>

definition MARKUP_PERCENTAGE :: int where
  "MARKUP_PERCENTAGE = 200"

definition selling_price_of :: "'f float_ops \<Rightarrow> 'f \<Rightarrow> 'f" where
  \<comment> \<open>\<open>cost_price * (1 + MARKUP_PERCENTAGE/100)\<close>, the expression of
      \<open>display_products\<close> and of \<open>process_sale_item\<close>\<close>
  "selling_price_of ops cost =
     float_mul ops cost
       (float_add ops (float_of_int ops 1) (int_truediv ops MARKUP_PERCENTAGE 100))"

datatype sale_error =
    QuantityNotPositive          \<comment> \<open>"Quantity must be positive"\<close>
  | OnlyAvailable int            \<comment> \<open>"Only N items available in stock"\<close>
  | NotEnoughForFree int         \<comment> \<open>"Not enough stock for free items. Maximum available: N"\<close>

definition process_sale_item ::
  "'f float_ops \<Rightarrow> 'f product \<Rightarrow> int \<Rightarrow> 'f product \<times> (sale_error + 'f sale_item)" where
  \<comment> \<open>The first component is the product dictionary as the call leaves it; the second
      is the pair \<open>(sale_item, error)\<close>, of which exactly one is not \<open>None\<close>.\<close>
  "process_sale_item ops product quantity =
     (if quantity \<le> 0 then (product, Inl QuantityNotPositive)
      else if quantity > p_stock product then (product, Inl (OnlyAvailable (p_stock product)))
      else
        let free_items = quantity div 3;
            total_items = quantity + free_items
        in
          if total_items > p_stock product
          then (product, Inl (NotEnoughForFree (p_stock product)))
          else
            let selling_price = selling_price_of ops (p_cost_price product);
                item_total = float_mul ops (float_of_int ops quantity) selling_price
            in (product,
                Inr \<lparr> s_id = p_id product, s_name = p_name product, s_brand = p_brand product,
                      s_quantity = quantity, s_free_items = free_items,
                      s_price = selling_price, s_total = item_total \<rparr>))"

definition display_products :: "'f float_ops \<Rightarrow> 'f product list \<Rightarrow> ('f product \<times> 'f) list" where
  \<comment> \<open>the rows of the table: every product in stock with the selling price shown for it\<close>
  "display_products ops products =
     map (\<lambda>product. (product, selling_price_of ops (p_cost_price product)))
       (filter (\<lambda>product. p_stock product > 0) products)"

section \<open>Product store (product_manager.py)\<close>

datatype py_error = ValueError | EOFError

definition LF :: char where
  "LF = CHR 0x0A"

definition CR :: char where
  "CR = CHR 0x0D"

fun universal_newlines :: "string \<Rightarrow> string" where
  \<comment> \<open>a file opened for reading in text mode: CR LF and a lone CR are read as LF\<close>
  "universal_newlines [] = []"
| "universal_newlines (c # cs) =
     (if c = CR then
        (case cs of
           [] \<Rightarrow> [LF]
         | d # ds \<Rightarrow> if d = LF then LF # universal_newlines ds else LF # universal_newlines cs)
      else c # universal_newlines cs)"

fun readlines :: "string \<Rightarrow> string list" where
  \<comment> \<open>\<open>for line in file\<close>: every line keeps its LF; the last one may have none\<close>
  "readlines [] = []"
| "readlines (c # cs) =
     (if c = LF then [c] # readlines cs
      else (case readlines cs of [] \<Rightarrow> [[c]] | l # ls \<Rightarrow> (c # l) # ls))"

definition parse_line :: "'f float_ops \<Rightarrow> string \<Rightarrow> py_error + 'f product" where
  \<comment> \<open>the body of the loop of \<open>load_products\<close> for one non-blank line: unpacking
      anything but six fields, \<open>int\<close> and \<open>float\<close> raise ValueError\<close>
  "parse_line ops line =
     (case split_sep (strip line) of
        [id_val, name, brand, stock, cost_price, origin] \<Rightarrow>
          (case py_int id_val of
             None \<Rightarrow> Inl ValueError
           | Some i \<Rightarrow>
               (case py_int stock of
                  None \<Rightarrow> Inl ValueError
                | Some s \<Rightarrow>
                    (case float_parse ops cost_price of
                       None \<Rightarrow> Inl ValueError
                     | Some c \<Rightarrow>
                         Inr \<lparr> p_id = i, p_name = name, p_brand = brand, p_stock = s,
                               p_cost_price = c, p_origin = origin \<rparr>)))
      | _ \<Rightarrow> Inl ValueError)"

fun read_products :: "'f float_ops \<Rightarrow> 'f product list \<Rightarrow> string list \<Rightarrow> py_error + 'f product list" where
  "read_products ops products [] = Inr products"
| "read_products ops products (line # lines) =
     (if strip line \<noteq> [] then
        (case parse_line ops line of
           Inl e \<Rightarrow> Inl e
         | Inr product \<Rightarrow> read_products ops (products @ [product]) lines)
      else read_products ops products lines)"

definition sample_data :: "string list" where
  "sample_data =
     [''1, Vitamin C Serum, Garnier, 200, 1000, France'',
      ''2, Skin Cleanser, Cetaphil, 100, 280, Switzerland'',
      ''3, Sunscreen, Aqualogica, 200, 700, India'']"

fun join_lines :: "string list \<Rightarrow> string" where
  \<comment> \<open>\<open>'\n'.join(xs)\<close>\<close>
  "join_lines [] = []"
| "join_lines [x] = x"
| "join_lines (x # y # ys) = x @ LF # join_lines (y # ys)"

type_synonym filesystem = "string \<rightharpoonup> string"

function load_products ::
  "'f float_ops \<Rightarrow> filesystem \<Rightarrow> string \<Rightarrow> filesystem \<times> (py_error + 'f product list)" where
  \<comment> \<open>the file system is threaded through: a missing file is created with the sample
      data and loaded again\<close>
  "load_products ops fs filename =
     (case fs filename of
        Some content \<Rightarrow> (fs, read_products ops [] (readlines (universal_newlines content)))
      | None \<Rightarrow> load_products ops (fs(filename \<mapsto> join_lines sample_data)) filename)"
  by pat_completeness auto
termination
  by (relation "measure (\<lambda>(ops, fs, filename). if fs filename = None then 1 else 0)") auto

declare load_products.simps [simp del]

definition format_product :: "'f float_ops \<Rightarrow> 'f product \<Rightarrow> string" where
  "format_product ops product =
     str_int (p_id product) @ '', '' @ p_name product @ '', '' @ p_brand product @ '', '' @
     str_int (p_stock product) @ '', '' @ float_repr ops (p_cost_price product) @ '', '' @
     p_origin product @ [LF]"

definition save_products :: "'f float_ops \<Rightarrow> 'f product list \<Rightarrow> filesystem \<Rightarrow> string \<Rightarrow> filesystem" where
  \<comment> \<open>the file is overwritten with one line for each product\<close>
  "save_products ops products fs filename =
     fs(filename \<mapsto> concat (map (format_product ops) products))"

definition get_next_id :: "'f product list \<Rightarrow> int" where
  "get_next_id products =
     foldl (\<lambda>max_id product. if p_id product > max_id then p_id product else max_id) 0 products + 1"

text \<open>
  The state of the run: the list and the file name captured by the closures of
  \<open>create_product_manager\<close>, the text files, and the invoice files.  An invoice file is
  kept as the record it renders; its layout is not modelled.
\<close>

datatype 'f invoice_data =
    SaleInvoice string string "'f sale_item list" 'f
      \<comment> \<open>customer name, date, items, total amount\<close>
  | RestockInvoice string string "'f restock_item list" 'f
      \<comment> \<open>supplier name, date, items, total amount\<close>

record 'f world =
  all_products :: "'f product list"
  filename :: string
  files :: filesystem
  invoice_files :: "string \<rightharpoonup> 'f invoice_data"

definition create_product_manager ::
  "'f float_ops \<Rightarrow> filesystem \<Rightarrow> (string \<rightharpoonup> 'f invoice_data) \<Rightarrow> string \<Rightarrow> filesystem \<times> (py_error + 'f world)" where
  "create_product_manager ops fs invs fname =
     (case load_products ops fs fname of
        (fs', Inl e) \<Rightarrow> (fs', Inl e)
      | (fs', Inr products) \<Rightarrow>
          (fs', Inr \<lparr> all_products = products, filename = fname, files = fs', invoice_files = invs \<rparr>))"

fun update_first :: "('a \<Rightarrow> bool) \<Rightarrow> ('a \<Rightarrow> 'a) \<Rightarrow> 'a list \<Rightarrow> 'a list option" where
  \<comment> \<open>a \<open>for\<close> loop that changes the first element it accepts and breaks; \<open>None\<close>
      when it runs to the end of the list\<close>
  "update_first P f [] = None"
| "update_first P f (x # xs) =
     (if P x then Some (f x # xs) else map_option ((#) x) (update_first P f xs))"

definition save_catalog :: "'f float_ops \<Rightarrow> 'f world \<Rightarrow> 'f world" where
  \<comment> \<open>\<open>save_products(all_products, filename)\<close> inside the manager\<close>
  "save_catalog ops w = w\<lparr> files := save_products ops (all_products w) (files w) (filename w) \<rparr>"

definition update_product_stock :: "'f float_ops \<Rightarrow> 'f world \<Rightarrow> int \<Rightarrow> int \<Rightarrow> 'f world" where
  "update_product_stock ops w product_id new_stock =
     (case update_first (\<lambda>product. p_id product = product_id)
             (\<lambda>product. product\<lparr> p_stock := new_stock \<rparr>) (all_products w) of
        None \<Rightarrow> w
      | Some products \<Rightarrow> save_catalog ops (w\<lparr> all_products := products \<rparr>))"

definition restock_one :: "'f restock_item \<Rightarrow> 'f product list \<Rightarrow> 'f product list" where
  \<comment> \<open>the body of the outer loop of \<open>handle_restock\<close>\<close>
  "restock_one item products =
     (case update_first (\<lambda>product. Some (p_id product) = r_id item)
             (\<lambda>product. product\<lparr> p_stock := p_stock product + r_quantity item,
                                 p_cost_price := r_cost_price item,
                                 p_brand := r_brand item,
                                 p_origin := r_origin item \<rparr>) products of
        Some products' \<Rightarrow> products'
      | None \<Rightarrow>
          products @
          [\<lparr> p_id = get_next_id products, p_name = r_name item, p_brand = r_brand item,
             p_stock = r_quantity item, p_cost_price = r_cost_price item,
             p_origin = r_origin item \<rparr>])"

fun restock_all :: "'f restock_item list \<Rightarrow> 'f product list \<Rightarrow> 'f product list" where
  "restock_all [] products = products"
| "restock_all (item # items) products = restock_all items (restock_one item products)"

definition handle_restock :: "'f float_ops \<Rightarrow> 'f world \<Rightarrow> 'f restock_item list \<Rightarrow> 'f world" where
  "handle_restock ops w restock_items =
     save_catalog ops (w\<lparr> all_products := restock_all restock_items (all_products w) \<rparr>)"

section \<open>Invoices (invoice_manager.py)\<close>

definition make_invoice_filename :: "string \<Rightarrow> string \<Rightarrow> string \<Rightarrow> string" where
  \<comment> \<open>\<open>timestamp\<close> is the clock reading \<open>datetime.now()\<close>, already formatted\<close>
  "make_invoice_filename invoice_dir prefix timestamp =
     invoice_dir @ ''/'' @ prefix @ ''_'' @ timestamp @ ''.txt''"

definition write_sale_invoice :: "string \<Rightarrow> string \<Rightarrow> 'f invoice_data \<Rightarrow> 'f world \<Rightarrow> 'f world" where
  "write_sale_invoice invoice_dir timestamp invoice w =
     w\<lparr> invoice_files :=
          (invoice_files w)(make_invoice_filename invoice_dir ''sale'' timestamp \<mapsto> invoice) \<rparr>"

definition write_restock_invoice :: "string \<Rightarrow> string \<Rightarrow> 'f invoice_data \<Rightarrow> 'f world \<Rightarrow> 'f world" where
  "write_restock_invoice invoice_dir timestamp invoice w =
     w\<lparr> invoice_files :=
          (invoice_files w)(make_invoice_filename invoice_dir ''restock'' timestamp \<mapsto> invoice) \<rparr>"

definition generate_sale_invoice :: "'f world \<Rightarrow> string \<Rightarrow> 'f invoice_data \<Rightarrow> 'f world" where
  \<comment> \<open>\<open>handle_sale_invoice\<close> of the invoice manager, whose directory is \<open>invoices\<close>\<close>
  "generate_sale_invoice w timestamp invoice = write_sale_invoice ''invoices'' timestamp invoice w"

definition generate_restock_invoice :: "'f world \<Rightarrow> string \<Rightarrow> 'f invoice_data \<Rightarrow> 'f world" where
  \<comment> \<open>\<open>handle_restock_invoice\<close> of the invoice manager\<close>
  "generate_restock_invoice w timestamp invoice =
     write_restock_invoice ''invoices'' timestamp invoice w"

section \<open>Transactions (main.py)\<close>

text \<open>
  The console is the list of the lines that \<open>input()\<close> will return, in order; reading
  past its end raises EOFError, which the program does not catch.  What the program prints
  is not modelled.
\<close>

fun get_valid_str :: "string list \<Rightarrow> py_error + string \<times> string list" where
  \<comment> \<open>\<open>get_valid_input(prompt)\<close>\<close>
  "get_valid_str [] = Inl EOFError"
| "get_valid_str (l # ls) =
     (let v = strip l in
      if v = [] then get_valid_str ls
      else Inr (v, ls))"

fun get_valid_int :: "int option \<Rightarrow> bool \<Rightarrow> string list \<Rightarrow> py_error + int \<times> string list" where
  \<comment> \<open>\<open>get_valid_input(prompt, input_type=int, min_value, allow_zero)\<close>\<close>
  "get_valid_int min_value allow_zero [] = Inl EOFError"
| "get_valid_int min_value allow_zero (l # ls) =
     (let v = strip l in
      if v = [] then get_valid_int min_value allow_zero ls
      else
        (case py_int v of
           None \<Rightarrow> get_valid_int min_value allow_zero ls
         | Some n \<Rightarrow>
             if (case min_value of None \<Rightarrow> False | Some m \<Rightarrow> n < m)
             then get_valid_int min_value allow_zero ls
             else if \<not> allow_zero \<and> n = 0 then get_valid_int min_value allow_zero ls
             else Inr (n, ls)))"

fun get_valid_float ::
  "'f float_ops \<Rightarrow> 'f option \<Rightarrow> bool \<Rightarrow> string list \<Rightarrow> py_error + 'f \<times> string list" where
  \<comment> \<open>\<open>get_valid_input(prompt, input_type=float, min_value, allow_zero)\<close>\<close>
  "get_valid_float ops min_value allow_zero [] = Inl EOFError"
| "get_valid_float ops min_value allow_zero (l # ls) =
     (let v = strip l in
      if v = [] then get_valid_float ops min_value allow_zero ls
      else
        (case float_parse ops v of
           None \<Rightarrow> get_valid_float ops min_value allow_zero ls
         | Some x \<Rightarrow>
             if (case min_value of None \<Rightarrow> False | Some m \<Rightarrow> float_lt ops x m)
             then get_valid_float ops min_value allow_zero ls
             else if \<not> allow_zero \<and> float_is_zero ops x
             then get_valid_float ops min_value allow_zero ls
             else Inr (x, ls)))"

definition sale_step ::
  "'f float_ops \<Rightarrow> 'f world \<times> 'f sale_item list \<times> 'f \<Rightarrow> 'f product \<Rightarrow> int
     \<Rightarrow> 'f world \<times> 'f sale_item list \<times> 'f" where
  \<comment> \<open>the loop body of \<open>make_sale\<close> once the product and the quantity are read:
      lines 134 to 145\<close>
  "sale_step ops st product quantity =
     (case st of (w, sale_items, total_amount) \<Rightarrow>
        (case process_sale_item ops product quantity of
           (product', Inl error) \<Rightarrow> (w, sale_items, total_amount)
         | (product', Inr sale_item) \<Rightarrow>
             (update_product_stock ops w (p_id product')
                (p_stock product' - (s_quantity sale_item + s_free_items sale_item)),
              sale_items @ [sale_item],
              float_add ops total_amount (s_total sale_item))))"

lemma get_valid_int_rest:
  "get_valid_int min_value allow_zero ls = Inr (n, ls') \<Longrightarrow> length ls' < length ls"
  by (induction ls) (auto simp: Let_def split: if_splits option.splits)

lemma get_valid_str_rest:
  "get_valid_str ls = Inr (v, ls') \<Longrightarrow> length ls' < length ls"
  by (induction ls) (auto simp: Let_def split: if_splits)

lemma get_valid_float_rest:
  "get_valid_float ops min_value allow_zero ls = Inr (x, ls') \<Longrightarrow> length ls' < length ls"
  by (induction ls) (auto simp: Let_def split: if_splits option.splits)

function sale_loop ::
  "'f float_ops \<Rightarrow> 'f world \<times> 'f sale_item list \<times> 'f \<Rightarrow> string list
     \<Rightarrow> ('f world \<times> 'f sale_item list \<times> 'f) \<times> (py_error + string list)" where
  \<comment> \<open>the \<open>while True\<close> loop of \<open>make_sale\<close>; it ends at \<open>done\<close> with the
      lines not yet read, or with the EOFError\<close>
  "sale_loop ops st [] = (st, Inl EOFError)"
| "sale_loop ops st (l # ls) =
     (let product_id = strip l in
      if lower product_id = ''done'' then (st, Inr ls)
      else if product_id = [] then sale_loop ops st ls
      else
        (case py_int product_id of
           None \<Rightarrow> sale_loop ops st ls
         | Some i \<Rightarrow>
             (case find (\<lambda>p. p_id p = i) (all_products (fst st)) of
                None \<Rightarrow> sale_loop ops st ls
              | Some product \<Rightarrow>
                  (case get_valid_int (Some 1) False ls of
                     Inl e \<Rightarrow> (st, Inl e)
                   | Inr (quantity, ls') \<Rightarrow> sale_loop ops (sale_step ops st product quantity) ls'))))"
  by pat_completeness auto
termination
  by (relation "measure (\<lambda>(ops, st, ls). length ls)")
     (auto dest: get_valid_int_rest)

declare sale_loop.simps [simp del]

definition make_sale ::
  "'f float_ops \<Rightarrow> string \<Rightarrow> string \<Rightarrow> 'f world \<Rightarrow> string list \<Rightarrow> 'f world \<times> (py_error + string list)" where
  \<comment> \<open>\<open>now\<close> is the \<open>datetime.now()\<close> of the invoice record, \<open>timestamp\<close> the
      one of the file name\<close>
  "make_sale ops now timestamp w console =
     (case get_valid_str console of
        Inl e \<Rightarrow> (w, Inl e)
      | Inr (customer_name, ls) \<Rightarrow>
          (case sale_loop ops (w, [], float_of_int ops 0) ls of
             ((w', sale_items, total_amount), Inl e) \<Rightarrow> (w', Inl e)
           | ((w', sale_items, total_amount), Inr rest) \<Rightarrow>
               if sale_items \<noteq> [] then
                 (generate_sale_invoice w' timestamp
                    (SaleInvoice customer_name now sale_items total_amount), Inr rest)
               else (w', Inr rest)))"

definition read_new_item ::
  "'f float_ops \<Rightarrow> string list \<Rightarrow> py_error + 'f restock_item \<times> string list" where
  \<comment> \<open>the prompts of the \<open>new\<close> branch of \<open>restock_products\<close>, lines 185 to 206;
      the least cost price 0.01 is the float that 1/100 evaluates to\<close>
  "read_new_item ops ls =
     (case get_valid_str ls of
        Inl e \<Rightarrow> Inl e
      | Inr (name, ls1) \<Rightarrow>
     (case get_valid_str ls1 of
        Inl e \<Rightarrow> Inl e
      | Inr (brand, ls2) \<Rightarrow>
     (case get_valid_str ls2 of
        Inl e \<Rightarrow> Inl e
      | Inr (origin, ls3) \<Rightarrow>
     (case get_valid_int (Some 1) False ls3 of
        Inl e \<Rightarrow> Inl e
      | Inr (quantity, ls4) \<Rightarrow>
     (case get_valid_float ops (Some (int_truediv ops 1 100)) False ls4 of
        Inl e \<Rightarrow> Inl e
      | Inr (cost_price, ls5) \<Rightarrow>
          Inr (\<lparr> r_id = None, r_name = name, r_brand = brand, r_quantity = quantity,
                 r_cost_price = cost_price, r_origin = origin \<rparr>, ls5))))))"

definition read_existing_item ::
  "'f float_ops \<Rightarrow> 'f product \<Rightarrow> string list \<Rightarrow> py_error + 'f restock_item \<times> string list" where
  \<comment> \<open>the prompts for a product that was found, lines 221 to 243\<close>
  "read_existing_item ops product ls =
     (case get_valid_int (Some 1) False ls of
        Inl e \<Rightarrow> Inl e
      | Inr (quantity, ls1) \<Rightarrow>
     (case get_valid_float ops (Some (float_of_int ops 0)) True ls1 of
        Inl e \<Rightarrow> Inl e
      | Inr (entered, ls2) \<Rightarrow>
          let cost_price = (if float_is_zero ops entered then p_cost_price product else entered)
          in Inr (\<lparr> r_id = Some (p_id product), r_name = p_name product,
                    r_brand = p_brand product, r_quantity = quantity,
                    r_cost_price = cost_price, r_origin = p_origin product \<rparr>, ls2)))"

definition add_restock_item ::
  "'f float_ops \<Rightarrow> 'f restock_item list \<times> 'f \<Rightarrow> 'f restock_item \<Rightarrow> 'f restock_item list \<times> 'f" where
  \<comment> \<open>\<open>restock_items.append(...)\<close> and \<open>total_cost += quantity * cost_price\<close>\<close>
  "add_restock_item ops st item =
     (fst st @ [item],
      float_add ops (snd st) (float_mul ops (float_of_int ops (r_quantity item)) (r_cost_price item)))"

lemma read_new_item_rest:
  "read_new_item ops ls = Inr (item, ls') \<Longrightarrow> length ls' < length ls"
  unfolding read_new_item_def
  by (auto split: sum.splits prod.splits
      dest!: get_valid_str_rest get_valid_int_rest get_valid_float_rest)

lemma read_existing_item_rest:
  "read_existing_item ops product ls = Inr (item, ls') \<Longrightarrow> length ls' < length ls"
  unfolding read_existing_item_def
  by (auto simp: Let_def split: sum.splits prod.splits
      dest!: get_valid_int_rest get_valid_float_rest)

function restock_loop ::
  "'f float_ops \<Rightarrow> 'f product list \<Rightarrow> 'f restock_item list \<times> 'f \<Rightarrow> string list
     \<Rightarrow> ('f restock_item list \<times> 'f) \<times> (py_error + string list)" where
  \<comment> \<open>the \<open>while True\<close> loop of \<open>restock_products\<close>; the catalogue is only read\<close>
  "restock_loop ops products st [] = (st, Inl EOFError)"
| "restock_loop ops products st (l # ls) =
     (let product_id = strip l in
      if lower product_id = ''done'' then (st, Inr ls)
      else if product_id = [] then restock_loop ops products st ls
      else if lower product_id = ''new'' then
        (case read_new_item ops ls of
           Inl e \<Rightarrow> (st, Inl e)
         | Inr (item, ls') \<Rightarrow> restock_loop ops products (add_restock_item ops st item) ls')
      else
        (case py_int product_id of
           None \<Rightarrow> restock_loop ops products st ls
         | Some i \<Rightarrow>
             (case find (\<lambda>p. p_id p = i) products of
                None \<Rightarrow> restock_loop ops products st ls
              | Some product \<Rightarrow>
                  (case read_existing_item ops product ls of
                     Inl e \<Rightarrow> (st, Inl e)
                   | Inr (item, ls') \<Rightarrow>
                       restock_loop ops products (add_restock_item ops st item) ls'))))"
  by pat_completeness auto
termination
  by (relation "measure (\<lambda>(ops, products, st, ls). length ls)")
     (auto dest: read_new_item_rest read_existing_item_rest)

declare restock_loop.simps [simp del]

definition restock_products ::
  "'f float_ops \<Rightarrow> string \<Rightarrow> string \<Rightarrow> 'f world \<Rightarrow> string list \<Rightarrow> 'f world \<times> (py_error + string list)" where
  "restock_products ops now timestamp w console =
     (case get_valid_str console of
        Inl e \<Rightarrow> (w, Inl e)
      | Inr (supplier_name, ls) \<Rightarrow>
          (case restock_loop ops (all_products w) ([], float_of_int ops 0) ls of
             ((restock_items, total_cost), Inl e) \<Rightarrow> (w, Inl e)
           | ((restock_items, total_cost), Inr rest) \<Rightarrow>
               if restock_items \<noteq> [] then
                 (generate_restock_invoice (handle_restock ops w restock_items) timestamp
                    (RestockInvoice supplier_name now restock_items total_cost), Inr rest)
               else (w, Inr rest)))"

section \<open>A concrete float arithmetic for running the model\<close>

text \<open>
  Python floats restricted to whole numbers of magnitude below \<open>2 ^ 53\<close>, each
  represented by its integer value.  On these, float addition and multiplication are exact
  as long as the results stay in range, a whole float \<open>n\<close> prints as the decimal digits
  of \<open>n\<close> followed by \<open>.0\<close>, and \<open>a / b\<close> is the integer quotient whenever
  \<open>b\<close> divides \<open>a\<close> (the quotient is rounded down to a whole number otherwise).
  The parser accepts a decimal integer, optionally followed by \<open>.0\<close>, and rejects every
  other spelling of a float.  The examples below run the model on these values only.
\<close>

definition whole_repr :: "int \<Rightarrow> string" where
  "whole_repr n = str_int n @ ''.0''"

definition whole_parse :: "string \<Rightarrow> int option" where
  "whole_parse s =
     (let t = strip_number s; k = length t - 2 in
      if 2 \<le> length t \<and> drop k t = ''.0'' then parse_signed (take k t) else parse_signed t)"

definition whole_ops :: "int float_ops" where
  "whole_ops =
     \<lparr> float_of_int = (\<lambda>n. n),
       int_truediv = (\<lambda>a b. a div b),
       float_add = (\<lambda>x y. x + y),
       float_mul = (\<lambda>x y. x * y),
       float_lt = (\<lambda>x y. x < y),
       float_is_zero = (\<lambda>x. x = 0),
       float_repr = whole_repr,
       float_parse = whole_parse \<rparr>"

section \<open>Facts about the loops that change the first match\<close>

lemma update_first_None_iff: "update_first P f xs = None \<longleftrightarrow> (\<forall>x\<in>set xs. \<not> P x)"
  by (induction xs) auto

lemma update_first_found:
  "find P xs = Some x \<Longrightarrow> P (f x) \<Longrightarrow>
     \<exists>ys. update_first P f xs = Some ys \<and> find P ys = Some (f x)"
  by (induction xs) (auto split: if_splits)

lemma process_sale_item_ok:
  assumes "0 < q" and "q + q div 3 \<le> p_stock product"
  shows "process_sale_item ops product q =
           (product,
            Inr \<lparr> s_id = p_id product, s_name = p_name product, s_brand = p_brand product,
                  s_quantity = q, s_free_items = q div 3,
                  s_price = selling_price_of ops (p_cost_price product),
                  s_total = float_mul ops (float_of_int ops q)
                              (selling_price_of ops (p_cost_price product)) \<rparr>)"
proof -
  from assms have "\<not> q \<le> 0" and "\<not> q > p_stock product" by presburger+
  with assms show ?thesis by (simp add: process_sale_item_def Let_def)
qed

section \<open>Sale lines\<close>

text \<open>
  C2.  A product with stock \<open>s\<close> that \<open>make_sale\<close> has found, and a positive quantity
  \<open>q\<close> with \<open>q + q div 3 \<le> s\<close>: \<open>process_sale_item\<close> returns a sale line with
  \<open>q div 3\<close> free items, the loop body then sets the stock of that product in the
  store to \<open>s - (q + q div 3)\<close>, and this number is not negative.
\<close>

theorem sale_updates_stock:
  assumes "0 < q" and "q + q div 3 \<le> p_stock product"
    and "find (\<lambda>p. p_id p = i) (all_products w) = Some product"
  shows "snd (process_sale_item ops product q) =
           Inr \<lparr> s_id = p_id product, s_name = p_name product, s_brand = p_brand product,
                 s_quantity = q, s_free_items = q div 3,
                 s_price = selling_price_of ops (p_cost_price product),
                 s_total = float_mul ops (float_of_int ops q)
                             (selling_price_of ops (p_cost_price product)) \<rparr>
       \<and> find (\<lambda>p. p_id p = i)
             (all_products (fst (sale_step ops (w, sale_items, total_amount) product q))) =
           Some (product\<lparr> p_stock := p_stock product - (q + q div 3) \<rparr>)
       \<and> 0 \<le> p_stock product - (q + q div 3)"
proof -
  let ?new = "p_stock product - (q + q div 3)"
  let ?P = "\<lambda>p. p_id p = i"
  let ?f = "\<lambda>p. p\<lparr> p_stock := ?new \<rparr>"
  note psi = process_sale_item_ok [OF assms(1,2), of ops]
  from assms(3) have idp: "p_id product = i"
    by (auto simp: find_Some_iff)
  then have "?P (?f product)" by simp
  with assms(3) obtain ys where ys: "update_first ?P ?f (all_products w) = Some ys"
      "find ?P ys = Some (?f product)"
    using update_first_found [of ?P "all_products w" product ?f] by blast
  have "all_products (fst (sale_step ops (w, sale_items, total_amount) product q)) = ys"
    using ys(1) idp
    by (simp add: sale_step_def psi update_product_stock_def save_catalog_def)
  with ys(2) psi assms(2) show ?thesis by simp
qed

text \<open>The first scenario of the specification: six units of product 1 of the sample data.\<close>

theorem sale_updates_stock_witness:
  "snd (process_sale_item whole_ops
         \<lparr> p_id = 1, p_name = ''Vitamin C Serum'', p_brand = ''Garnier'', p_stock = 200,
           p_cost_price = 1000, p_origin = ''France'' \<rparr> 6) =
     Inr \<lparr> s_id = 1, s_name = ''Vitamin C Serum'', s_brand = ''Garnier'', s_quantity = 6,
           s_free_items = 2, s_price = 3000, s_total = 18000 \<rparr>
   \<and> find (\<lambda>p. p_id p = 1)
       (all_products (fst (sale_step whole_ops
          (\<lparr> all_products =
               [\<lparr> p_id = 1, p_name = ''Vitamin C Serum'', p_brand = ''Garnier'', p_stock = 200,
                  p_cost_price = 1000, p_origin = ''France'' \<rparr>],
             filename = ''products.txt'', files = Map.empty, invoice_files = Map.empty \<rparr>,
           [], 0)
          \<lparr> p_id = 1, p_name = ''Vitamin C Serum'', p_brand = ''Garnier'', p_stock = 200,
            p_cost_price = 1000, p_origin = ''France'' \<rparr> 6))) =
     Some \<lparr> p_id = 1, p_name = ''Vitamin C Serum'', p_brand = ''Garnier'', p_stock = 192,
            p_cost_price = 1000, p_origin = ''France'' \<rparr>"
  using sale_updates_stock [of 6
      "\<lparr> p_id = 1, p_name = ''Vitamin C Serum'', p_brand = ''Garnier'', p_stock = 200,
         p_cost_price = 1000, p_origin = ''France'' \<rparr>" 1
      "\<lparr> all_products =
               [\<lparr> p_id = 1, p_name = ''Vitamin C Serum'', p_brand = ''Garnier'', p_stock = 200,
                  p_cost_price = 1000, p_origin = ''France'' \<rparr>],
             filename = ''products.txt'', files = Map.empty, invoice_files = Map.empty \<rparr>"
      whole_ops "[]" 0]
  by (simp add: selling_price_of_def whole_ops_def MARKUP_PERCENTAGE_def)

text \<open>
  C7.  When the quantity plus its free items exceeds the stock of the product (a stock
  that is not negative, or a quantity that is positive, as the quantity prompt of
  \<open>make_sale\<close> guarantees), \<open>process_sale_item\<close> returns one of its two
  insufficient-stock errors and the loop body leaves the store, the recorded lines and the
  running total as they were.
\<close>

theorem sale_rejected_when_stock_short:
  assumes "p_stock product < q + q div 3" and "0 \<le> p_stock product \<or> 0 < q"
  shows "(snd (process_sale_item ops product q) = Inl (OnlyAvailable (p_stock product))
          \<or> snd (process_sale_item ops product q) = Inl (NotEnoughForFree (p_stock product)))
       \<and> fst (process_sale_item ops product q) = product
       \<and> sale_step ops (w, sale_items, total_amount) product q = (w, sale_items, total_amount)"
proof -
  from assms have pos: "\<not> q \<le> 0" by presburger
  show ?thesis
  proof (cases "q > p_stock product")
    case True
    with pos show ?thesis by (simp add: process_sale_item_def sale_step_def)
  next
    case False
    with pos assms(1) show ?thesis by (simp add: process_sale_item_def sale_step_def Let_def)
  qed
qed

text \<open>The third scenario of the specification: 998 units of a product with stock 200.\<close>

theorem sale_rejected_when_stock_short_witness:
  "snd (process_sale_item whole_ops
         \<lparr> p_id = 1, p_name = ''Vitamin C Serum'', p_brand = ''Garnier'', p_stock = 200,
           p_cost_price = 1000, p_origin = ''France'' \<rparr> 998) = Inl (OnlyAvailable 200)
   \<and> sale_step whole_ops
        (\<lparr> all_products =
             [\<lparr> p_id = 1, p_name = ''Vitamin C Serum'', p_brand = ''Garnier'', p_stock = 200,
                p_cost_price = 1000, p_origin = ''France'' \<rparr>],
           filename = ''products.txt'', files = Map.empty, invoice_files = Map.empty \<rparr>, [], 0)
        \<lparr> p_id = 1, p_name = ''Vitamin C Serum'', p_brand = ''Garnier'', p_stock = 200,
          p_cost_price = 1000, p_origin = ''France'' \<rparr> 998 =
      (\<lparr> all_products =
             [\<lparr> p_id = 1, p_name = ''Vitamin C Serum'', p_brand = ''Garnier'', p_stock = 200,
                p_cost_price = 1000, p_origin = ''France'' \<rparr>],
           filename = ''products.txt'', files = Map.empty, invoice_files = Map.empty \<rparr>, [], 0)"
  using sale_rejected_when_stock_short [of
      "\<lparr> p_id = 1, p_name = ''Vitamin C Serum'', p_brand = ''Garnier'', p_stock = 200,
         p_cost_price = 1000, p_origin = ''France'' \<rparr>" 998 whole_ops
      "\<lparr> all_products =
             [\<lparr> p_id = 1, p_name = ''Vitamin C Serum'', p_brand = ''Garnier'', p_stock = 200,
                p_cost_price = 1000, p_origin = ''France'' \<rparr>],
           filename = ''products.txt'', files = Map.empty, invoice_files = Map.empty \<rparr>"
      "[]" 0]
  by (simp add: process_sale_item_def)

text \<open>
  C10.  \<open>process_sale_item\<close> leaves the product it is given as it was, whatever it
  returns, and the loop body of \<open>make_sale\<close> changes the store only by the call of
  \<open>update_stock\<close> that follows a sale line: after an error the store is the one before.
\<close>

theorem process_sale_item_frame:
  "fst (process_sale_item ops product q) = product
   \<and> fst (sale_step ops (w, sale_items, total_amount) product q) =
       (case snd (process_sale_item ops product q) of
          Inl e \<Rightarrow> w
        | Inr sale_item \<Rightarrow>
            update_product_stock ops w (p_id product)
              (p_stock product - (s_quantity sale_item + s_free_items sale_item)))"
  by (simp add: process_sale_item_def sale_step_def Let_def)

text \<open>
  C4.  In a float arithmetic where \<open>200 / 100\<close> is 2.0 and \<open>1 + 2.0\<close> is 3.0, as in
  IEEE arithmetic, the selling price is the float product of the cost price and 3.0: in the
  rows that \<open>display_products\<close> shows, in the price of a sale line, and in its total,
  which is the quantity times that price.
\<close>

theorem selling_price_is_triple:
  assumes "int_truediv ops 200 100 = float_of_int ops 2"
    and "float_add ops (float_of_int ops 1) (float_of_int ops 2) = float_of_int ops 3"
  shows "selling_price_of ops cost = float_mul ops cost (float_of_int ops 3)
       \<and> map snd (display_products ops products) =
           map (\<lambda>p. float_mul ops (p_cost_price p) (float_of_int ops 3))
             (filter (\<lambda>p. p_stock p > 0) products)
       \<and> (case snd (process_sale_item ops product q) of
            Inl e \<Rightarrow> True
          | Inr sale_item \<Rightarrow>
              s_price sale_item = float_mul ops (p_cost_price product) (float_of_int ops 3)
              \<and> s_total sale_item =
                  float_mul ops (float_of_int ops q)
                    (float_mul ops (p_cost_price product) (float_of_int ops 3)))"
proof -
  have sp: "selling_price_of ops c = float_mul ops c (float_of_int ops 3)" for c
    using assms by (simp add: selling_price_of_def MARKUP_PERCENTAGE_def)
  show ?thesis
    by (simp add: sp display_products_def process_sale_item_def Let_def comp_def)
qed

theorem selling_price_is_triple_witness:
  "selling_price_of whole_ops 1000 = 3000
   \<and> map snd (display_products whole_ops
        [\<lparr> p_id = 1, p_name = ''Vitamin C Serum'', p_brand = ''Garnier'', p_stock = 200,
           p_cost_price = 1000, p_origin = ''France'' \<rparr>]) = [3000]
   \<and> snd (process_sale_item whole_ops
        \<lparr> p_id = 1, p_name = ''Vitamin C Serum'', p_brand = ''Garnier'', p_stock = 200,
          p_cost_price = 1000, p_origin = ''France'' \<rparr> 6) =
      Inr \<lparr> s_id = 1, s_name = ''Vitamin C Serum'', s_brand = ''Garnier'', s_quantity = 6,
            s_free_items = 2, s_price = 3000, s_total = 18000 \<rparr>"
proof -
  have h1: "int_truediv whole_ops 200 100 = float_of_int whole_ops 2"
    by (simp add: whole_ops_def)
  have h2: "float_add whole_ops (float_of_int whole_ops 1) (float_of_int whole_ops 2) =
      float_of_int whole_ops 3"
    by (simp add: whole_ops_def)
  have "selling_price_of whole_ops 1000 = 3000"
    and "map snd (display_products whole_ops
        [\<lparr> p_id = 1, p_name = ''Vitamin C Serum'', p_brand = ''Garnier'', p_stock = 200,
           p_cost_price = 1000, p_origin = ''France'' \<rparr>]) = [3000]"
    using selling_price_is_triple [OF h1 h2, of 1000
        "[\<lparr> p_id = 1, p_name = ''Vitamin C Serum'', p_brand = ''Garnier'', p_stock = 200,
           p_cost_price = 1000, p_origin = ''France'' \<rparr>]"]
    by (simp_all add: whole_ops_def)
  moreover have "snd (process_sale_item whole_ops
        \<lparr> p_id = 1, p_name = ''Vitamin C Serum'', p_brand = ''Garnier'', p_stock = 200,
          p_cost_price = 1000, p_origin = ''France'' \<rparr> 6) =
      Inr \<lparr> s_id = 1, s_name = ''Vitamin C Serum'', s_brand = ''Garnier'', s_quantity = 6,
            s_free_items = 2, s_price = 3000, s_total = 18000 \<rparr>"
    by (simp add: process_sale_item_def selling_price_of_def whole_ops_def MARKUP_PERCENTAGE_def)
  ultimately show ?thesis by simp
qed

section \<open>Stock updates\<close>

text \<open>
  C6.  \<open>update_stock\<close> with an identifier that no product of the list has returns the
  state it was given: the list in memory, the catalogue file and every other file are
  unchanged, and the operation has no error result.
\<close>

theorem update_stock_unknown_id:
  assumes "product_id \<notin> p_id ` set (all_products w)"
  shows "update_product_stock ops w product_id new_stock = w"
proof -
  from assms have "\<forall>p\<in>set (all_products w). \<not> p_id p = product_id" by auto
  then have "update_first (\<lambda>product. p_id product = product_id)
      (\<lambda>product. product\<lparr> p_stock := new_stock \<rparr>) (all_products w) = None"
    by (simp add: update_first_None_iff)
  then show ?thesis by (simp add: update_product_stock_def)
qed

theorem update_stock_unknown_id_witness:
  "update_product_stock whole_ops
     \<lparr> all_products =
         [\<lparr> p_id = 1, p_name = ''Vitamin C Serum'', p_brand = ''Garnier'', p_stock = 200,
            p_cost_price = 1000, p_origin = ''France'' \<rparr>],
       filename = ''products.txt'', files = Map.empty, invoice_files = Map.empty \<rparr> 7 5 =
   \<lparr> all_products =
         [\<lparr> p_id = 1, p_name = ''Vitamin C Serum'', p_brand = ''Garnier'', p_stock = 200,
            p_cost_price = 1000, p_origin = ''France'' \<rparr>],
       filename = ''products.txt'', files = Map.empty, invoice_files = Map.empty \<rparr>"
  using update_stock_unknown_id [of 7
      "\<lparr> all_products =
         [\<lparr> p_id = 1, p_name = ''Vitamin C Serum'', p_brand = ''Garnier'', p_stock = 200,
            p_cost_price = 1000, p_origin = ''France'' \<rparr>],
       filename = ''products.txt'', files = Map.empty, invoice_files = Map.empty \<rparr>" whole_ops 5]
  by simp

section \<open>Restocking\<close>

lemma Max_insert_max:
  fixes S :: "int set"
  assumes "finite S"
  shows "Max (insert (max a x) S) = Max (insert a (insert x S))"
proof (cases "S = {}")
  case True
  then show ?thesis by (simp add: max.commute)
next
  case False
  with assms show ?thesis by (simp add: max.assoc)
qed

lemma foldl_max_id:
  "foldl (\<lambda>max_id product. if p_id product > max_id then p_id product else max_id) a products =
     Max (insert a (p_id ` set products))"
proof (induction products arbitrary: a)
  case Nil
  then show ?case by simp
next
  case (Cons p ps)
  have step: "(if p_id p > a then p_id p else a) = max a (p_id p)"
    by (simp add: max_def)
  have "foldl (\<lambda>max_id product. if p_id product > max_id then p_id product else max_id) a (p # ps) =
      Max (insert (max a (p_id p)) (p_id ` set ps))"
    by (simp only: foldl_Cons step Cons.IH)
  also have "\<dots> = Max (insert a (insert (p_id p) (p_id ` set ps)))"
    by (rule Max_insert_max) simp
  finally show ?case by simp
qed

lemma get_next_id_Max: "get_next_id products = Max (insert 0 (p_id ` set products)) + 1"
  by (simp add: get_next_id_def foldl_max_id)

lemma get_next_id_greater: "p \<in> set products \<Longrightarrow> p_id p < get_next_id products"
proof -
  assume "p \<in> set products"
  then have "p_id p \<le> Max (insert 0 (p_id ` set products))" by simp
  then show ?thesis by (simp add: get_next_id_Max)
qed

lemma get_next_id_positive: "0 < get_next_id products"
proof -
  have "0 \<le> Max (insert 0 (p_id ` set products))" by simp
  then show ?thesis by (simp add: get_next_id_Max)
qed

lemma get_next_id_append:
  "get_next_id (products @ [p]) = max (get_next_id products) (p_id p + 1)"
  by (simp add: get_next_id_def max_def)

lemma update_first_list_update:
  "find P xs = Some x \<Longrightarrow>
     update_first P f xs = Some (xs[length (takeWhile (\<lambda>y. \<not> P y) xs) := f x])"
  by (induction xs) (auto split: if_splits)

lemma update_first_map:
  "update_first P f xs = Some ys \<Longrightarrow> (\<And>x. g (f x) = g x) \<Longrightarrow> map g ys = map g xs"
  by (induction xs arbitrary: ys) (auto split: if_splits)

lemma update_first_set:
  "update_first P f xs = Some ys \<Longrightarrow> y \<in> set ys \<Longrightarrow> y \<in> set xs \<or> (\<exists>x\<in>set xs. y = f x)"
  by (induction xs arbitrary: ys) (auto split: if_splits)

lemma restock_one_ids:
  "map p_id (restock_one item products) = map p_id products
   \<or> restock_one item products =
        products @
        [\<lparr> p_id = get_next_id products, p_name = r_name item, p_brand = r_brand item,
           p_stock = r_quantity item, p_cost_price = r_cost_price item,
           p_origin = r_origin item \<rparr>]"
  by (auto simp: restock_one_def split: option.splits dest!: update_first_map [where g = p_id])

lemma get_next_id_cong:
  "map p_id products' = map p_id products \<Longrightarrow> get_next_id products' = get_next_id products"
  by (metis get_next_id_Max set_map)

lemma map_upt_shift:
  "map (\<lambda>j. g + int j) [0 ..< Suc k] = g # map (\<lambda>j. g + 1 + int j) [0 ..< k]"
proof -
  have "[0 ..< Suc k] = 0 # map Suc [0 ..< k]"
    by (simp add: upt_conv_Cons map_Suc_upt del: upt_Suc)
  then show ?thesis by (simp add: comp_def add.assoc del: upt_Suc)
qed

lemma restock_all_ids:
  "map p_id (restock_all items products) =
     map p_id products @
     map (\<lambda>j. get_next_id products + int j)
       [0 ..< length (restock_all items products) - length products]"
proof (induction items arbitrary: products)
  case Nil
  then show ?case by simp
next
  case (Cons item items)
  let ?ps = "restock_one item products"
  let ?g = "get_next_id products"
  define k where "k = length (restock_all items ?ps) - length ?ps"
  have IH: "map p_id (restock_all items ?ps) =
      map p_id ?ps @ map (\<lambda>j. get_next_id ?ps + int j) [0 ..< k]"
    unfolding k_def by (rule Cons.IH)
  have grow: "length (restock_all items ?ps) = length ?ps + k"
  proof -
    have "length (map p_id (restock_all items ?ps)) = length (map p_id ?ps) + k"
      by (subst IH) simp
    then show ?thesis by simp
  qed
  from restock_one_ids [of item products]
  have "map p_id (restock_all items ?ps) =
      map p_id products @ map (\<lambda>j. ?g + int j) [0 ..< length (restock_all items ?ps) - length products]"
  proof
    assume same: "map p_id ?ps = map p_id products"
    then have len: "length ?ps = length products" by (metis length_map)
    have "length (restock_all items ?ps) - length products = k"
      by (simp add: grow len)
    then show ?thesis
      using IH by (simp only: same get_next_id_cong [OF same])
  next
    let ?p = "\<lparr> p_id = ?g, p_name = r_name item, p_brand = r_brand item,
           p_stock = r_quantity item, p_cost_price = r_cost_price item,
           p_origin = r_origin item \<rparr>"
    assume app: "?ps = products @ [?p]"
    have next_id: "get_next_id ?ps = ?g + 1"
      by (simp only: app get_next_id_append) simp
    have ids: "map p_id ?ps = map p_id products @ [?g]"
      by (simp only: app) simp
    have len: "length ?ps = Suc (length products)"
      by (simp only: app) simp
    have k': "length (restock_all items ?ps) - length products = Suc k"
      by (simp add: grow len)
    have "map p_id (restock_all items ?ps) =
        (map p_id products @ [?g]) @ map (\<lambda>j. ?g + 1 + int j) [0 ..< k]"
      using IH by (simp only: ids next_id)
    also have "\<dots> = map p_id products @ map (\<lambda>j. ?g + int j) [0 ..< Suc k]"
      by (simp only: map_upt_shift) simp
    finally show ?thesis by (simp only: k')
  qed
  then show ?case by (simp only: restock_all.simps)
qed

lemma restock_one_new:
  "r_id item = None \<Longrightarrow>
     restock_one item products =
       products @
       [\<lparr> p_id = get_next_id products, p_name = r_name item, p_brand = r_brand item,
          p_stock = r_quantity item, p_cost_price = r_cost_price item,
          p_origin = r_origin item \<rparr>]"
proof -
  assume "r_id item = None"
  then have "update_first (\<lambda>product. Some (p_id product) = r_id item)
      (\<lambda>product. product\<lparr> p_stock := p_stock product + r_quantity item,
                         p_cost_price := r_cost_price item,
                         p_brand := r_brand item,
                         p_origin := r_origin item \<rparr>) products = None"
    by (simp add: update_first_None_iff)
  then show ?thesis by (simp add: restock_one_def)
qed

lemma restock_all_new_length:
  "\<forall>item\<in>set items. r_id item = None \<Longrightarrow>
     length (restock_all items products) = length products + length items"
  by (induction items arbitrary: products) (simp_all add: restock_one_new)

definition sample_products :: "int product list" where
  \<comment> \<open>the catalogue that the sample data loads as\<close>
  "sample_products =
     [\<lparr> p_id = 1, p_name = ''Vitamin C Serum'', p_brand = ''Garnier'', p_stock = 200,
        p_cost_price = 1000, p_origin = ''France'' \<rparr>,
      \<lparr> p_id = 2, p_name = ''Skin Cleanser'', p_brand = ''Cetaphil'', p_stock = 100,
        p_cost_price = 280, p_origin = ''Switzerland'' \<rparr>,
      \<lparr> p_id = 3, p_name = ''Sunscreen'', p_brand = ''Aqualogica'', p_stock = 200,
        p_cost_price = 700, p_origin = ''India'' \<rparr>]"

text \<open>
  C3.  One pass of the loop of \<open>handle_restock\<close>: an item whose identifier is that of
  a product changes the first such product, adding the quantity to its stock and
  overwriting cost price, brand and origin, and leaves the rest of the list alone; an item
  with no identifier is appended as a product whose stock is the quantity and whose
  identifier is \<open>get_next_id\<close> of the list at that moment.  That identifier is one more
  than the greatest of 0 and the identifiers present, hence one more than the greatest
  identifier as soon as one of them is not negative, and it exceeds every identifier
  present.  Over a batch, the identifiers of the list are the old ones followed by
  consecutive new ones, one for each appended product; every item without identifier
  appends one.
\<close>

theorem restock_batch:
  "(r_id item = Some i \<and> find (\<lambda>p. p_id p = i) products = Some p \<longrightarrow>
      restock_one item products =
        products[length (takeWhile (\<lambda>y. p_id y \<noteq> i) products) :=
          p\<lparr> p_stock := p_stock p + r_quantity item, p_cost_price := r_cost_price item,
             p_brand := r_brand item, p_origin := r_origin item \<rparr>])
   \<and> (r_id item = None \<longrightarrow>
      restock_one item products =
        products @
        [\<lparr> p_id = get_next_id products, p_name = r_name item, p_brand = r_brand item,
           p_stock = r_quantity item, p_cost_price = r_cost_price item,
           p_origin = r_origin item \<rparr>])
   \<and> get_next_id products = Max (insert 0 (p_id ` set products)) + 1
   \<and> ((\<exists>p\<in>set products. 0 \<le> p_id p) \<longrightarrow>
        get_next_id products = Max (p_id ` set products) + 1)
   \<and> (\<forall>p\<in>set products. p_id p < get_next_id products)
   \<and> map p_id (restock_all items products) =
       map p_id products @
       map (\<lambda>j. get_next_id products + int j)
         [0 ..< length (restock_all items products) - length products]
   \<and> ((\<forall>item\<in>set items. r_id item = None) \<longrightarrow>
        length (restock_all items products) = length products + length items)
   \<and> all_products (handle_restock ops w items) = restock_all items (all_products w)"
proof -
  have existing: "restock_one item products =
        products[length (takeWhile (\<lambda>y. p_id y \<noteq> i) products) :=
          p\<lparr> p_stock := p_stock p + r_quantity item, p_cost_price := r_cost_price item,
             p_brand := r_brand item, p_origin := r_origin item \<rparr>]"
    if "r_id item = Some i" and "find (\<lambda>p. p_id p = i) products = Some p"
    using that update_first_list_update [of "\<lambda>p. p_id p = i" products p]
    by (simp add: restock_one_def)
  have greatest: "get_next_id products = Max (p_id ` set products) + 1"
    if "\<exists>p\<in>set products. 0 \<le> p_id p"
  proof -
    from that obtain q where q: "q \<in> set products" "0 \<le> p_id q" by blast
    then have "p_id q \<le> Max (p_id ` set products)" by simp
    with q(2) have "0 \<le> Max (p_id ` set products)" by linarith
    moreover from q(1) have "p_id ` set products \<noteq> {}" by auto
    ultimately have "Max (insert 0 (p_id ` set products)) = Max (p_id ` set products)"
      by (simp add: max_def)
    then show ?thesis by (simp add: get_next_id_Max)
  qed
  have saved: "all_products (handle_restock ops w items) = restock_all items (all_products w)"
    by (simp add: handle_restock_def save_catalog_def)
  show ?thesis
    using existing greatest saved restock_one_new [of item products]
      get_next_id_Max [of products] get_next_id_greater [of _ products]
      restock_all_ids [of items products] restock_all_new_length [of items products]
    by blast
qed

text \<open>
  The second scenario of the specification: with the sample catalogue, whose greatest
  identifier is 3, the new product Face Wash gets identifier 4 and stock 50.
\<close>

theorem restock_batch_witness:
  "restock_one
     \<lparr> r_id = Some 2, r_name = ''Skin Cleanser'', r_brand = ''Cetaphil'', r_quantity = 10,
       r_cost_price = 300, r_origin = ''Switzerland'' \<rparr> sample_products =
     [\<lparr> p_id = 1, p_name = ''Vitamin C Serum'', p_brand = ''Garnier'', p_stock = 200,
        p_cost_price = 1000, p_origin = ''France'' \<rparr>,
      \<lparr> p_id = 2, p_name = ''Skin Cleanser'', p_brand = ''Cetaphil'', p_stock = 110,
        p_cost_price = 300, p_origin = ''Switzerland'' \<rparr>,
      \<lparr> p_id = 3, p_name = ''Sunscreen'', p_brand = ''Aqualogica'', p_stock = 200,
        p_cost_price = 700, p_origin = ''India'' \<rparr>]
   \<and> restock_one
       \<lparr> r_id = None, r_name = ''Face Wash'', r_brand = ''Himalaya'', r_quantity = 50,
         r_cost_price = 200, r_origin = ''Nepal'' \<rparr> sample_products =
     sample_products @
     [\<lparr> p_id = 4, p_name = ''Face Wash'', p_brand = ''Himalaya'', p_stock = 50,
        p_cost_price = 200, p_origin = ''Nepal'' \<rparr>]
   \<and> map p_id
       (restock_all
          [\<lparr> r_id = None, r_name = ''Face Wash'', r_brand = ''Himalaya'', r_quantity = 50,
             r_cost_price = 200, r_origin = ''Nepal'' \<rparr>,
           \<lparr> r_id = None, r_name = ''Toner'', r_brand = ''Himalaya'', r_quantity = 20,
             r_cost_price = 150, r_origin = ''Nepal'' \<rparr>] sample_products) = [1, 2, 3, 4, 5]"
proof -
  let ?existing = "\<lparr> r_id = Some 2, r_name = ''Skin Cleanser'', r_brand = ''Cetaphil'',
       r_quantity = 10, r_cost_price = 300, r_origin = ''Switzerland'' \<rparr> :: int restock_item"
  let ?face_wash = "\<lparr> r_id = None, r_name = ''Face Wash'', r_brand = ''Himalaya'',
       r_quantity = 50, r_cost_price = 200, r_origin = ''Nepal'' \<rparr> :: int restock_item"
  let ?toner = "\<lparr> r_id = None, r_name = ''Toner'', r_brand = ''Himalaya'', r_quantity = 20,
       r_cost_price = 150, r_origin = ''Nepal'' \<rparr> :: int restock_item"
  let ?p2 = "\<lparr> p_id = 2, p_name = ''Skin Cleanser'', p_brand = ''Cetaphil'', p_stock = 100,
        p_cost_price = 280, p_origin = ''Switzerland'' \<rparr> :: int product"
  have found: "find (\<lambda>p. p_id p = 2) sample_products = Some ?p2"
    by (simp add: sample_products_def)
  have nonneg: "\<exists>p\<in>set sample_products. 0 \<le> p_id p"
    by (simp add: sample_products_def)
  have greatest: "Max (p_id ` set sample_products) = 3"
    by (simp add: sample_products_def)
  have next_id: "get_next_id sample_products = 4"
    using restock_batch [THEN conjunct2, THEN conjunct2, THEN conjunct2, THEN conjunct1,
        of sample_products] nonneg greatest
    by simp
  have a: "restock_one ?existing sample_products =
      sample_products[length (takeWhile (\<lambda>y. p_id y \<noteq> 2) sample_products) :=
        ?p2\<lparr> p_stock := p_stock ?p2 + r_quantity ?existing,
             p_cost_price := r_cost_price ?existing,
             p_brand := r_brand ?existing, p_origin := r_origin ?existing \<rparr>]"
    using restock_batch [THEN conjunct1, of ?existing 2 sample_products ?p2] found
    by simp
  have b: "restock_one ?face_wash sample_products =
      sample_products @
      [\<lparr> p_id = 4, p_name = ''Face Wash'', p_brand = ''Himalaya'', p_stock = 50,
         p_cost_price = 200, p_origin = ''Nepal'' \<rparr>]"
    using restock_batch [THEN conjunct2, THEN conjunct1, of ?face_wash sample_products]
    by (simp add: next_id)
  have len: "length (restock_all [?face_wash, ?toner] sample_products) =
      length sample_products + 2"
    using restock_batch [THEN conjunct2, THEN conjunct2, THEN conjunct2, THEN conjunct2,
        THEN conjunct2, THEN conjunct2, THEN conjunct1, of "[?face_wash, ?toner]" sample_products]
    by simp
  have upt2: "[0 ..< 2] = [0, Suc 0]"
    by (simp add: upt_conv_Cons)
  have c: "map p_id (restock_all [?face_wash, ?toner] sample_products) = [1, 2, 3, 4, 5]"
    using restock_batch [THEN conjunct2, THEN conjunct2, THEN conjunct2, THEN conjunct2,
        THEN conjunct2, THEN conjunct1, of "[?face_wash, ?toner]" sample_products]
    by (simp only: len next_id diff_add_inverse upt2) (simp add: sample_products_def)
  from a have a': "restock_one ?existing sample_products =
     [\<lparr> p_id = 1, p_name = ''Vitamin C Serum'', p_brand = ''Garnier'', p_stock = 200,
        p_cost_price = 1000, p_origin = ''France'' \<rparr>,
      \<lparr> p_id = 2, p_name = ''Skin Cleanser'', p_brand = ''Cetaphil'', p_stock = 110,
        p_cost_price = 300, p_origin = ''Switzerland'' \<rparr>,
      \<lparr> p_id = 3, p_name = ''Sunscreen'', p_brand = ''Aqualogica'', p_stock = 200,
        p_cost_price = 700, p_origin = ''India'' \<rparr>]"
    by (simp add: sample_products_def)
  from a' b c show ?thesis by (simp only:) 
qed

section \<open>The invariant of the catalogue\<close>

definition catalog_ok :: "'f product list \<Rightarrow> bool" where
  \<comment> \<open>the invariant of the data model: no identifier twice, no negative stock\<close>
  "catalog_ok products \<longleftrightarrow> distinct (map p_id products) \<and> (\<forall>p\<in>set products. 0 \<le> p_stock p)"

definition sample_world :: "int world" where
  \<comment> \<open>the state after \<open>create_product_manager("products.txt")\<close> on a first run\<close>
  "sample_world =
     \<lparr> all_products = sample_products, filename = ''products.txt'',
       files = [''products.txt'' \<mapsto> join_lines sample_data], invoice_files = Map.empty \<rparr>"

lemma update_first_catalog_ok:
  assumes "update_first P f xs = Some ys"
    and "\<And>x. p_id (f x) = p_id x"
    and "\<And>x. 0 \<le> p_stock (f x)"
    and "catalog_ok xs"
  shows "catalog_ok ys"
proof -
  have "map p_id ys = map p_id xs"
    using assms(1,2) by (rule update_first_map)
  moreover have "0 \<le> p_stock y" if "y \<in> set ys" for y
    using update_first_set [OF assms(1) that] assms(3,4) by (auto simp: catalog_ok_def)
  ultimately show ?thesis
    using assms(4) by (simp add: catalog_ok_def)
qed

lemma update_product_stock_ok:
  assumes "0 \<le> new_stock" and "catalog_ok (all_products w)"
  shows "catalog_ok (all_products (update_product_stock ops w product_id new_stock))"
proof (cases "update_first (\<lambda>product. p_id product = product_id)
    (\<lambda>product. product\<lparr> p_stock := new_stock \<rparr>) (all_products w)")
  case None
  with assms(2) show ?thesis by (simp add: update_product_stock_def)
next
  case (Some ys)
  then have "catalog_ok ys"
    by (rule update_first_catalog_ok) (use assms in simp_all)
  with Some show ?thesis by (simp add: update_product_stock_def save_catalog_def)
qed

lemma process_sale_item_Inr:
  assumes "process_sale_item ops product q = (product', Inr sale_item)"
  shows "product' = product \<and> s_quantity sale_item = q \<and> s_free_items sale_item = q div 3
       \<and> 0 < q \<and> q + q div 3 \<le> p_stock product"
  using assms by (auto simp: process_sale_item_def Let_def split: if_splits)

lemma sale_step_ok:
  assumes "catalog_ok (all_products (fst st))"
  shows "catalog_ok (all_products (fst (sale_step ops st product q)))"
proof (cases st)
  case (fields w sale_items total_amount)
  show ?thesis
  proof (cases "process_sale_item ops product q")
    case (Pair product' r)
    show ?thesis
    proof (cases r)
      case (Inl e)
      with Pair fields assms show ?thesis by (simp add: sale_step_def)
    next
      case (Inr sale_item)
      with Pair have "0 \<le> p_stock product' - (s_quantity sale_item + s_free_items sale_item)"
        using process_sale_item_Inr [of ops product q product' sale_item] by simp
      then have "catalog_ok (all_products (update_product_stock ops w (p_id product')
          (p_stock product' - (s_quantity sale_item + s_free_items sale_item))))"
        using assms fields by (simp add: update_product_stock_ok)
      with Pair Inr fields show ?thesis by (simp add: sale_step_def)
    qed
  qed
qed

lemma sale_loop_ok:
  "catalog_ok (all_products (fst st)) \<Longrightarrow>
     catalog_ok (all_products (fst (fst (sale_loop ops st ls))))"
proof (induction ops st ls rule: sale_loop.induct)
  case (1 ops st)
  then show ?case by (simp add: sale_loop.simps)
next
  case (2 ops st l ls)
  show ?case
    using "2.prems" "2.IH" sale_step_ok [of st ops]
    by (subst sale_loop.simps) (auto simp: Let_def split: option.splits sum.splits)
qed

lemma make_sale_ok:
  assumes "catalog_ok (all_products w)"
  shows "catalog_ok (all_products (fst (make_sale ops now timestamp w console)))"
proof (cases "get_valid_str console")
  case (Inl e)
  with assms show ?thesis by (simp add: make_sale_def)
next
  case (Inr r)
  obtain customer_name ls where r: "r = (customer_name, ls)" by (cases r)
  have "catalog_ok (all_products (fst (fst (sale_loop ops (w, [], float_of_int ops 0) ls))))"
    using assms by (simp add: sale_loop_ok)
  then show ?thesis
    using Inr r
    by (auto simp: make_sale_def generate_sale_invoice_def write_sale_invoice_def split: prod.splits sum.splits)
qed

lemma restock_one_ok:
  assumes "0 \<le> r_quantity item" and "catalog_ok products"
  shows "catalog_ok (restock_one item products)"
proof (cases "update_first (\<lambda>product. Some (p_id product) = r_id item)
    (\<lambda>product. product\<lparr> p_stock := p_stock product + r_quantity item,
                       p_cost_price := r_cost_price item,
                       p_brand := r_brand item,
                       p_origin := r_origin item \<rparr>) products")
  case None
  have "get_next_id products \<notin> p_id ` set products"
    using get_next_id_greater [of _ products] by fastforce
  with None assms show ?thesis
    by (simp add: restock_one_def catalog_ok_def)
next
  case (Some ys)
  have "distinct (map p_id ys)"
    using update_first_map [OF Some, of p_id] assms(2) by (simp add: catalog_ok_def)
  moreover have "0 \<le> p_stock y" if "y \<in> set ys" for y
    using update_first_set [OF Some that] assms by (auto simp: catalog_ok_def)
  ultimately show ?thesis
    using Some by (simp add: restock_one_def catalog_ok_def)
qed

lemma restock_all_ok:
  "\<forall>item\<in>set items. 0 \<le> r_quantity item \<Longrightarrow> catalog_ok products \<Longrightarrow>
     catalog_ok (restock_all items products)"
  by (induction items arbitrary: products) (simp_all add: restock_one_ok)

lemma handle_restock_ok:
  "\<forall>item\<in>set items. 0 \<le> r_quantity item \<Longrightarrow> catalog_ok (all_products w) \<Longrightarrow>
     catalog_ok (all_products (handle_restock ops w items))"
  by (simp add: handle_restock_def save_catalog_def restock_all_ok)

lemma get_valid_int_min:
  "get_valid_int (Some m) allow_zero ls = Inr (n, ls') \<Longrightarrow> m \<le> n"
  by (induction ls) (auto simp: Let_def split: if_splits option.splits)

lemma read_new_item_quantity:
  "read_new_item ops ls = Inr (item, ls') \<Longrightarrow> 1 \<le> r_quantity item"
  unfolding read_new_item_def
  by (auto split: sum.splits prod.splits dest: get_valid_int_min)

lemma read_existing_item_quantity:
  "read_existing_item ops product ls = Inr (item, ls') \<Longrightarrow> 1 \<le> r_quantity item"
  unfolding read_existing_item_def
  by (auto simp: Let_def split: sum.splits prod.splits dest: get_valid_int_min)

lemma restock_loop_quantities:
  "\<forall>item\<in>set (fst st). 1 \<le> r_quantity item \<Longrightarrow>
     \<forall>item\<in>set (fst (fst (restock_loop ops products st ls))). 1 \<le> r_quantity item"
proof (induction ops products st ls rule: restock_loop.induct)
  case (1 ops products st)
  then show ?case by (simp add: restock_loop.simps)
next
  case (2 ops products st l ls)
  let ?Q = "\<lambda>r. \<forall>item\<in>set (fst (fst r)). 1 \<le> r_quantity item"
  define product_id where "product_id = strip l"
  have step: "\<forall>i\<in>set (fst (add_restock_item ops st item)). 1 \<le> r_quantity i"
    if "1 \<le> r_quantity item" for item
    using that "2.prems" by (simp add: add_restock_item_def)
  have unfold: "restock_loop ops products st (l # ls) =
     (if lower product_id = ''done'' then (st, Inr ls)
      else if product_id = [] then restock_loop ops products st ls
      else if lower product_id = ''new'' then
        (case read_new_item ops ls of
           Inl e \<Rightarrow> (st, Inl e)
         | Inr (item, ls') \<Rightarrow> restock_loop ops products (add_restock_item ops st item) ls')
      else
        (case py_int product_id of
           None \<Rightarrow> restock_loop ops products st ls
         | Some i \<Rightarrow>
             (case find (\<lambda>p. p_id p = i) products of
                None \<Rightarrow> restock_loop ops products st ls
              | Some product \<Rightarrow>
                  (case read_existing_item ops product ls of
                     Inl e \<Rightarrow> (st, Inl e)
                   | Inr (item, ls') \<Rightarrow>
                       restock_loop ops products (add_restock_item ops st item) ls'))))"
    by (simp only: restock_loop.simps Let_def product_id_def)
  consider (finished) "lower product_id = ''done''"
    | (empty) "lower product_id \<noteq> ''done''" "product_id = []"
    | (new) "lower product_id \<noteq> ''done''" "product_id \<noteq> []" "lower product_id = ''new''"
    | (other) "lower product_id \<noteq> ''done''" "product_id \<noteq> []" "lower product_id \<noteq> ''new''"
    by blast
  then show ?case
  proof cases
    case finished
    with "2.prems" show ?thesis by (simp add: unfold)
  next
    case empty
    with "2.IH"(1) [OF product_id_def] "2.prems" show ?thesis by (simp add: unfold)
  next
    case new
    show ?thesis
    proof (cases "read_new_item ops ls")
      case (Inl e)
      with new "2.prems" show ?thesis by (simp add: unfold)
    next
      case (Inr r)
      obtain item ls' where r: "r = (item, ls')" by (cases r)
      have "1 \<le> r_quantity item"
        using Inr r read_new_item_quantity by blast
      then have "?Q (restock_loop ops products (add_restock_item ops st item) ls')"
        using "2.IH"(2) [OF product_id_def new Inr r [symmetric]] step by blast
      with new Inr r show ?thesis by (simp add: unfold)
    qed
  next
    case other
    show ?thesis
    proof (cases "py_int product_id")
      case None
      with "2.IH"(3) [OF product_id_def other] "2.prems" other show ?thesis
        by (simp add: unfold)
    next
      case (Some i)
      show ?thesis
      proof (cases "find (\<lambda>p. p_id p = i) products")
        case None
        with "2.IH"(4) [OF product_id_def other Some] "2.prems" other Some show ?thesis
          by (simp add: unfold)
      next
        case found: (Some product)
        show ?thesis
        proof (cases "read_existing_item ops product ls")
          case (Inl e)
          with other Some found "2.prems" show ?thesis by (simp add: unfold)
        next
          case (Inr r)
          obtain item ls' where r: "r = (item, ls')" by (cases r)
          have "1 \<le> r_quantity item"
            using Inr r read_existing_item_quantity by blast
          then have "?Q (restock_loop ops products (add_restock_item ops st item) ls')"
            using "2.IH"(5) [OF product_id_def other Some found Inr r [symmetric]] step
            by blast
          with other Some found Inr r show ?thesis by (simp add: unfold)
        qed
      qed
    qed
  qed
qed

lemma restock_products_ok:
  assumes "catalog_ok (all_products w)"
  shows "catalog_ok (all_products (fst (restock_products ops now timestamp w console)))"
proof (cases "get_valid_str console")
  case (Inl e)
  with assms show ?thesis by (simp add: restock_products_def)
next
  case (Inr r)
  obtain supplier_name ls where r: "r = (supplier_name, ls)" by (cases r)
  let ?res = "restock_loop ops (all_products w) ([], float_of_int ops 0) ls"
  have "\<forall>item\<in>set (fst (fst ?res)). 1 \<le> r_quantity item"
    by (rule restock_loop_quantities) simp
  then have "\<forall>item\<in>set (fst (fst ?res)). 0 \<le> r_quantity item" by fastforce
  then have "catalog_ok (all_products (handle_restock ops w (fst (fst ?res))))"
    using assms by (rule handle_restock_ok)
  then show ?thesis
    using Inr r assms
    by (auto simp: restock_products_def generate_restock_invoice_def
        write_restock_invoice_def split: prod.splits sum.splits)
qed

text \<open>
  C5.  A catalogue with distinct identifiers and no negative stock keeps both properties
  through a whole sale transaction and through a whole restock transaction, whatever is
  typed at the console: through every stock update that follows a sale line, and through
  \<open>handle_restock\<close> on items of positive quantity, which is all that the restock
  prompts let through.
\<close>

theorem catalog_invariant:
  assumes "catalog_ok (all_products w)"
  shows "catalog_ok (all_products (fst (make_sale ops now timestamp w console)))
       \<and> catalog_ok (all_products (fst (restock_products ops now timestamp w console)))
       \<and> catalog_ok (all_products (fst (sale_step ops (w, sale_items, total_amount) product q)))
       \<and> ((\<forall>item\<in>set restock_items. 0 < r_quantity item) \<longrightarrow>
            catalog_ok (all_products (handle_restock ops w restock_items)))"
proof -
  have "catalog_ok (all_products (fst (sale_step ops (w, sale_items, total_amount) product q)))"
    using sale_step_ok [of "(w, sale_items, total_amount)" ops product q] assms by simp
  moreover have "catalog_ok (all_products (handle_restock ops w restock_items))"
    if "\<forall>item\<in>set restock_items. 0 < r_quantity item"
  proof -
    from that have "\<forall>item\<in>set restock_items. 0 \<le> r_quantity item" by fastforce
    then show ?thesis using assms by (rule handle_restock_ok)
  qed
  ultimately show ?thesis
    using make_sale_ok [OF assms] restock_products_ok [OF assms] by blast
qed

lemma sample_sale_run:
  "all_products (fst (make_sale whole_ops ''2025-01-01 10:00:00'' ''20250101_100000'' sample_world
      [''Asha'', ''1'', ''6'', ''done''])) =
     [\<lparr> p_id = 1, p_name = ''Vitamin C Serum'', p_brand = ''Garnier'', p_stock = 192,
        p_cost_price = 1000, p_origin = ''France'' \<rparr>,
      \<lparr> p_id = 2, p_name = ''Skin Cleanser'', p_brand = ''Cetaphil'', p_stock = 100,
        p_cost_price = 280, p_origin = ''Switzerland'' \<rparr>,
      \<lparr> p_id = 3, p_name = ''Sunscreen'', p_brand = ''Aqualogica'', p_stock = 200,
        p_cost_price = 700, p_origin = ''India'' \<rparr>]"
  by code_simp

lemma sample_restock_run:
  "all_products (fst (restock_products whole_ops ''2025-01-01 10:00:00'' ''20250101_100000''
      sample_world
      [''Lotus Traders'', ''new'', ''Face Wash'', ''Himalaya'', ''Nepal'', ''50'', ''200'',
       ''2'', ''10'', ''0'', ''done''])) =
     [\<lparr> p_id = 1, p_name = ''Vitamin C Serum'', p_brand = ''Garnier'', p_stock = 200,
        p_cost_price = 1000, p_origin = ''France'' \<rparr>,
      \<lparr> p_id = 2, p_name = ''Skin Cleanser'', p_brand = ''Cetaphil'', p_stock = 110,
        p_cost_price = 280, p_origin = ''Switzerland'' \<rparr>,
      \<lparr> p_id = 3, p_name = ''Sunscreen'', p_brand = ''Aqualogica'', p_stock = 200,
        p_cost_price = 700, p_origin = ''India'' \<rparr>,
      \<lparr> p_id = 4, p_name = ''Face Wash'', p_brand = ''Himalaya'', p_stock = 50,
        p_cost_price = 200, p_origin = ''Nepal'' \<rparr>]"
  by code_simp

theorem catalog_invariant_witness:
  "catalog_ok (all_products sample_world)
   \<and> catalog_ok
       [\<lparr> p_id = 1, p_name = ''Vitamin C Serum'', p_brand = ''Garnier'', p_stock = 192,
          p_cost_price = 1000, p_origin = ''France'' \<rparr>,
        \<lparr> p_id = 2, p_name = ''Skin Cleanser'', p_brand = ''Cetaphil'', p_stock = 100,
          p_cost_price = 280, p_origin = ''Switzerland'' \<rparr>,
        \<lparr> p_id = 3, p_name = ''Sunscreen'', p_brand = ''Aqualogica'', p_stock = 200,
          p_cost_price = (700::int), p_origin = ''India'' \<rparr>]
   \<and> catalog_ok
       [\<lparr> p_id = 1, p_name = ''Vitamin C Serum'', p_brand = ''Garnier'', p_stock = 200,
          p_cost_price = 1000, p_origin = ''France'' \<rparr>,
        \<lparr> p_id = 2, p_name = ''Skin Cleanser'', p_brand = ''Cetaphil'', p_stock = 110,
          p_cost_price = 280, p_origin = ''Switzerland'' \<rparr>,
        \<lparr> p_id = 3, p_name = ''Sunscreen'', p_brand = ''Aqualogica'', p_stock = 200,
          p_cost_price = 700, p_origin = ''India'' \<rparr>,
        \<lparr> p_id = 4, p_name = ''Face Wash'', p_brand = ''Himalaya'', p_stock = 50,
          p_cost_price = (200::int), p_origin = ''Nepal'' \<rparr>]"
proof -
  have h: "catalog_ok (all_products sample_world)"
    by (simp add: sample_world_def sample_products_def catalog_ok_def)
  have "catalog_ok (all_products (fst (make_sale whole_ops ''2025-01-01 10:00:00''
      ''20250101_100000'' sample_world [''Asha'', ''1'', ''6'', ''done''])))"
    using catalog_invariant [OF h] by blast
  moreover have "catalog_ok (all_products (fst (restock_products whole_ops
      ''2025-01-01 10:00:00'' ''20250101_100000'' sample_world
      [''Lotus Traders'', ''new'', ''Face Wash'', ''Himalaya'', ''Nepal'', ''50'', ''200'',
       ''2'', ''10'', ''0'', ''done''])))"
    using catalog_invariant [OF h] by blast
  ultimately show ?thesis
    using h by (simp only: sample_sale_run sample_restock_run) 
qed

section \<open>Transactions that record no line\<close>

lemma sale_step_cases:
  "sale_step ops st product q = st
   \<or> length (fst (snd (sale_step ops st product q))) = Suc (length (fst (snd st)))"
  by (cases st) (auto simp: sale_step_def split: prod.splits sum.splits)

lemma sale_loop_lines:
  "length (fst (snd st)) \<le> length (fst (snd (fst (sale_loop ops st ls))))
   \<and> (length (fst (snd (fst (sale_loop ops st ls)))) = length (fst (snd st)) \<longrightarrow>
        fst (sale_loop ops st ls) = st)"
proof (induction ops st ls rule: sale_loop.induct)
  case (1 ops st)
  then show ?case by (simp add: sale_loop.simps)
next
  case (2 ops st l ls)
  let ?len = "\<lambda>s. length (fst (snd s))"
  let ?R = "\<lambda>s r. ?len s \<le> ?len (fst r) \<and> (?len (fst r) = ?len s \<longrightarrow> fst r = s)"
  define product_id where "product_id = strip l"
  have unfold: "sale_loop ops st (l # ls) =
     (if lower product_id = ''done'' then (st, Inr ls)
      else if product_id = [] then sale_loop ops st ls
      else
        (case py_int product_id of
           None \<Rightarrow> sale_loop ops st ls
         | Some i \<Rightarrow>
             (case find (\<lambda>p. p_id p = i) (all_products (fst st)) of
                None \<Rightarrow> sale_loop ops st ls
              | Some product \<Rightarrow>
                  (case get_valid_int (Some 1) False ls of
                     Inl e \<Rightarrow> (st, Inl e)
                   | Inr (quantity, ls') \<Rightarrow> sale_loop ops (sale_step ops st product quantity) ls'))))"
    by (simp only: sale_loop.simps Let_def product_id_def)
  consider (finished) "lower product_id = ''done''"
    | (blank) "lower product_id \<noteq> ''done''" "product_id = []"
    | (other) "lower product_id \<noteq> ''done''" "product_id \<noteq> []"
    by blast
  then show ?case
  proof cases
    case finished
    then show ?thesis by (simp add: unfold)
  next
    case blank
    with "2.IH"(1) [OF product_id_def] show ?thesis by (simp add: unfold)
  next
    case other
    show ?thesis
    proof (cases "py_int product_id")
      case None
      with "2.IH"(2) [OF product_id_def other] other show ?thesis by (simp add: unfold)
    next
      case (Some i)
      show ?thesis
      proof (cases "find (\<lambda>p. p_id p = i) (all_products (fst st))")
        case None
        with "2.IH"(3) [OF product_id_def other Some] other Some show ?thesis
          by (simp add: unfold)
      next
        case found: (Some product)
        show ?thesis
        proof (cases "get_valid_int (Some 1) False ls")
          case (Inl e)
          with other Some found show ?thesis by (simp add: unfold)
        next
          case (Inr r)
          obtain quantity ls' where r: "r = (quantity, ls')" by (cases r)
          let ?st' = "sale_step ops st product quantity"
          have IH: "?R ?st' (sale_loop ops ?st' ls')"
            using "2.IH"(4) [OF product_id_def other Some found Inr r [symmetric]] .
          have "?R st (sale_loop ops ?st' ls')"
            using IH sale_step_cases [of ops st product quantity] by auto
          with other Some found Inr r show ?thesis by (simp add: unfold)
        qed
      qed
    qed
  qed
qed

text \<open>
  C8.  A sale whose loop ends with no recorded line leaves the whole state as it was
  before the transaction: no invoice file is written, and the store was never updated,
  because every update comes with a recorded line.  A restock whose loop ends with no
  recorded line returns the state it was given as well: \<open>handle_restock\<close> is not
  called and no invoice file is written.
\<close>

theorem no_lines_no_effect:
  "(get_valid_str console = Inr (customer_name, ls)
      \<and> fst (snd (fst (sale_loop ops (w, [], float_of_int ops 0) ls))) = [] \<longrightarrow>
        fst (make_sale ops now timestamp w console) = w)
   \<and> (get_valid_str console = Inr (supplier_name, ls)
      \<and> fst (fst (restock_loop ops (all_products w) ([], float_of_int ops 0) ls)) = [] \<longrightarrow>
        fst (restock_products ops now timestamp w console) = w)"
proof -
  have sale: "fst (make_sale ops now timestamp w console) = w"
    if name: "get_valid_str console = Inr (customer_name, ls)"
      and none: "fst (snd (fst (sale_loop ops (w, [], float_of_int ops 0) ls))) = []"
  proof -
    let ?st = "(w, [], float_of_int ops 0)"
    from none have "fst (sale_loop ops ?st ls) = ?st"
      using sale_loop_lines [of ?st ops ls] by simp
    then show ?thesis
      using name by (auto simp: make_sale_def split: prod.splits sum.splits)
  qed
  have restock: "fst (restock_products ops now timestamp w console) = w"
    if "get_valid_str console = Inr (supplier_name, ls)"
      and "fst (fst (restock_loop ops (all_products w) ([], float_of_int ops 0) ls)) = []"
    using that by (auto simp: restock_products_def split: prod.splits sum.splits)
  from sale restock show ?thesis by blast
qed

text \<open>
  A sale in which the only request, 998 units of product 1, is rejected, and a restock in
  which the only identifier typed is unknown.
\<close>

theorem no_lines_no_effect_witness:
  "fst (make_sale whole_ops ''2025-01-01 10:00:00'' ''20250101_100000'' sample_world
      [''Asha'', ''1'', ''998'', ''done'']) = sample_world
   \<and> fst (restock_products whole_ops ''2025-01-01 10:00:00'' ''20250101_100000'' sample_world
      [''Lotus Traders'', ''9'', ''done'']) = sample_world"
proof -
  have a: "get_valid_str [''Asha'', ''1'', ''998'', ''done''] = Inr (''Asha'', [''1'', ''998'', ''done''])"
    by code_simp
  have b: "fst (snd (fst (sale_loop whole_ops (sample_world, [], float_of_int whole_ops 0)
      [''1'', ''998'', ''done'']))) = []"
    by code_simp
  have c: "get_valid_str [''Lotus Traders'', ''9'', ''done''] = Inr (''Lotus Traders'', [''9'', ''done''])"
    by code_simp
  have d: "fst (fst (restock_loop whole_ops (all_products sample_world)
      ([], float_of_int whole_ops 0) [''9'', ''done''])) = []"
    by code_simp
  from a b c d show ?thesis
    using no_lines_no_effect [THEN conjunct1, of "[''Asha'', ''1'', ''998'', ''done'']"
        "''Asha''" "[''1'', ''998'', ''done'']" whole_ops sample_world]
      no_lines_no_effect [THEN conjunct2, of "[''Lotus Traders'', ''9'', ''done'']"
        "''Lotus Traders''" "[''9'', ''done'']" whole_ops sample_world]
    by blast
qed

section \<open>Loading the catalogue\<close>

lemma parse_line_error: "parse_line ops line = Inl e \<Longrightarrow> e = ValueError"
  by (auto simp: parse_line_def split: list.splits option.splits)

lemma parse_line_fields:
  "parse_line ops line = Inl ValueError \<longleftrightarrow>
     (length (split_sep (strip line)) \<noteq> 6
      \<or> py_int (split_sep (strip line) ! 0) = None
      \<or> py_int (split_sep (strip line) ! 3) = None
      \<or> float_parse ops (split_sep (strip line) ! 4) = None)"
proof (cases "length (split_sep (strip line)) = 6")
  case False
  then have "parse_line ops line = Inl ValueError"
    by (auto simp: parse_line_def split: list.splits)
  with False show ?thesis by simp
next
  case True
  then obtain a b c d e f where fields: "split_sep (strip line) = [a, b, c, d, e, f]"
    by (auto simp: length_Suc_conv eval_nat_numeral)
  show ?thesis
    by (auto simp: parse_line_def fields split: option.splits)
qed

lemma read_products_error:
  "line \<in> set lines \<Longrightarrow> strip line \<noteq> [] \<Longrightarrow> parse_line ops line = Inl ValueError \<Longrightarrow>
     read_products ops products lines = Inl ValueError"
proof (induction lines arbitrary: products)
  case Nil
  then show ?case by simp
next
  case (Cons l lines)
  show ?case
  proof (cases "l = line")
    case True
    with Cons.prems show ?thesis by simp
  next
    case False
    with Cons.prems have "line \<in> set lines" by simp
    then have IH: "read_products ops ps lines = Inl ValueError" for ps
      using Cons.IH Cons.prems(2,3) by blast
    show ?thesis
    proof (cases "parse_line ops l")
      case (Inl e)
      then have "e = ValueError" by (rule parse_line_error)
      with Inl IH show ?thesis by simp
    next
      case (Inr p)
      with IH show ?thesis by simp
    qed
  qed
qed

lemma load_products_missing:
  "fs fname = None \<Longrightarrow>
     load_products ops fs fname =
       (fs(fname \<mapsto> join_lines sample_data),
        read_products ops [] (readlines (universal_newlines (join_lines sample_data))))"
  by (simp add: load_products.simps [of ops fs] load_products.simps [of ops "fs(fname \<mapsto> x)" for x])

lemma sample_lines:
  "readlines (universal_newlines (join_lines sample_data)) =
     [''1, Vitamin C Serum, Garnier, 200, 1000, France'' @ [LF],
      ''2, Skin Cleanser, Cetaphil, 100, 280, Switzerland'' @ [LF],
      ''3, Sunscreen, Aqualogica, 200, 700, India'']"
  by code_simp

text \<open>
  C9.  When the catalogue file is missing, \<open>load_products\<close> writes the three sample
  rows, joined by line feeds, to that file and returns what reading these three lines
  gives.  When the file exists and one of its non-blank lines does not split into six
  fields, or has an identifier or a stock that \<open>int\<close> rejects, or a cost price that
  \<open>float\<close> rejects, \<open>load_products\<close> ends with the ValueError and the file as it
  was; \<open>create_product_manager\<close> passes the error on.
\<close>

theorem load_products_behaviour:
  "(fs fname = None \<longrightarrow>
      load_products ops fs fname =
        (fs(fname \<mapsto> join_lines sample_data),
         read_products ops []
           [''1, Vitamin C Serum, Garnier, 200, 1000, France'' @ [LF],
            ''2, Skin Cleanser, Cetaphil, 100, 280, Switzerland'' @ [LF],
            ''3, Sunscreen, Aqualogica, 200, 700, India''])
      \<and> load_products ops fs fname =
          load_products ops (fs(fname \<mapsto> join_lines sample_data)) fname)
   \<and> (fs fname = Some content
      \<and> line \<in> set (readlines (universal_newlines content)) \<and> strip line \<noteq> []
      \<and> (length (split_sep (strip line)) \<noteq> 6
         \<or> py_int (split_sep (strip line) ! 0) = None
         \<or> py_int (split_sep (strip line) ! 3) = None
         \<or> float_parse ops (split_sep (strip line) ! 4) = None) \<longrightarrow>
      load_products ops fs fname = (fs, Inl ValueError)
      \<and> create_product_manager ops fs invs fname = (fs, Inl ValueError))"
proof -
  have missing: "load_products ops fs fname =
        (fs(fname \<mapsto> join_lines sample_data),
         read_products ops []
           [''1, Vitamin C Serum, Garnier, 200, 1000, France'' @ [LF],
            ''2, Skin Cleanser, Cetaphil, 100, 280, Switzerland'' @ [LF],
            ''3, Sunscreen, Aqualogica, 200, 700, India''])
      \<and> load_products ops fs fname =
          load_products ops (fs(fname \<mapsto> join_lines sample_data)) fname"
    if "fs fname = None"
  proof -
    have "load_products ops fs fname =
        load_products ops (fs(fname \<mapsto> join_lines sample_data)) fname"
      using that by (simp add: load_products.simps [of ops fs])
    with that show ?thesis
      by (simp only: load_products_missing sample_lines)
  qed
  have malformed: "load_products ops fs fname = (fs, Inl ValueError)
      \<and> create_product_manager ops fs invs fname = (fs, Inl ValueError)"
    if "fs fname = Some content"
      and "line \<in> set (readlines (universal_newlines content))" and "strip line \<noteq> []"
      and "length (split_sep (strip line)) \<noteq> 6
         \<or> py_int (split_sep (strip line) ! 0) = None
         \<or> py_int (split_sep (strip line) ! 3) = None
         \<or> float_parse ops (split_sep (strip line) ! 4) = None"
  proof -
    from that(4) have "parse_line ops line = Inl ValueError"
      by (simp only: parse_line_fields)
    with that(2,3)
    have "read_products ops [] (readlines (universal_newlines content)) = Inl ValueError"
      by (rule read_products_error)
    with that(1) have "load_products ops fs fname = (fs, Inl ValueError)"
      by (simp add: load_products.simps [of ops fs])
    then show ?thesis by (simp add: create_product_manager_def)
  qed
  from missing malformed show ?thesis by blast
qed

text \<open>
  A first run, which loads the sample catalogue, and a file whose second line has the
  text \<open>many\<close> where the stock belongs.
\<close>

theorem load_products_behaviour_witness:
  "load_products whole_ops Map.empty ''products.txt'' =
     ([''products.txt'' \<mapsto> join_lines sample_data], Inr sample_products)
   \<and> load_products whole_ops
       [''products.txt'' \<mapsto> ''1, Soap, Dove, 5, 40, India'' @ [LF] @ ''2, Balm, Nivea, many, 90, Germany'' @ [LF]]
       ''products.txt'' =
     ([''products.txt'' \<mapsto> ''1, Soap, Dove, 5, 40, India'' @ [LF] @ ''2, Balm, Nivea, many, 90, Germany'' @ [LF]],
      Inl ValueError)"
proof -
  let ?content = "''1, Soap, Dove, 5, 40, India'' @ [LF] @ ''2, Balm, Nivea, many, 90, Germany'' @ [LF]"
  let ?line = "''2, Balm, Nivea, many, 90, Germany'' @ [LF]"
  have rows: "read_products whole_ops []
           [''1, Vitamin C Serum, Garnier, 200, 1000, France'' @ [LF],
            ''2, Skin Cleanser, Cetaphil, 100, 280, Switzerland'' @ [LF],
            ''3, Sunscreen, Aqualogica, 200, 700, India''] = Inr sample_products"
    by code_simp
  have first_run: "load_products whole_ops Map.empty ''products.txt'' =
     ([''products.txt'' \<mapsto> join_lines sample_data], Inr sample_products)"
  proof -
    have none: "(Map.empty :: filesystem) ''products.txt'' = None" by simp
    show ?thesis
      using load_products_behaviour [THEN conjunct1, rule_format, OF none, THEN conjunct1,
          of whole_ops]
      by (simp only: rows)
  qed
  have a: "?line \<in> set (readlines (universal_newlines ?content))" by code_simp
  have b: "strip ?line \<noteq> []" by code_simp
  have c: "py_int (split_sep (strip ?line) ! 3) = None" by code_simp
  have "load_products whole_ops [''products.txt'' \<mapsto> ?content] ''products.txt'' =
     ([''products.txt'' \<mapsto> ?content], Inl ValueError)"
  proof -
    have some: "[''products.txt'' \<mapsto> ?content] ''products.txt'' = Some ?content" by simp
    show ?thesis
      using load_products_behaviour [THEN conjunct2, rule_format, THEN conjunct1,
          of "[''products.txt'' \<mapsto> ?content]" "''products.txt''" ?content ?line whole_ops]
        some a b c
      by blast
  qed
  with first_run show ?thesis by simp
qed

section \<open>Saving and loading again\<close>

fun has_sep :: "string \<Rightarrow> bool" where
  \<comment> \<open>the text contains the separator, a comma followed by a space\<close>
  "has_sep (c # d # cs) = ((c = CHR '','' \<and> d = CHR '' '') \<or> has_sep (d # cs))"
| "has_sep cs = False"

definition plain_text :: "string \<Rightarrow> bool" where
  \<comment> \<open>no separator and no line break\<close>
  "plain_text s \<longleftrightarrow> \<not> has_sep s \<and> LF \<notin> set s \<and> CR \<notin> set s"

definition storable :: "'f float_ops \<Rightarrow> 'f product \<Rightarrow> bool" where
  \<comment> \<open>a product that its line in the file determines: plain text fields, an origin that
      is not empty and does not end in whitespace, a cost price that prints as plain text
      and is read back from what it prints as\<close>
  "storable ops p \<longleftrightarrow>
     plain_text (p_name p) \<and> plain_text (p_brand p) \<and> plain_text (p_origin p)
     \<and> p_origin p \<noteq> [] \<and> \<not> is_space (last (p_origin p))
     \<and> plain_text (float_repr ops (p_cost_price p))
     \<and> float_parse ops (float_repr ops (p_cost_price p)) = Some (p_cost_price p)"

lemma of_char_digit_char: "d < 10 \<Longrightarrow> (of_char (digit_char d) :: nat) = 48 + d"
  by (simp add: digit_char_def)

lemma is_digit_digit_char: "d < 10 \<Longrightarrow> is_digit (digit_char d)"
  by (simp add: is_digit_def of_char_digit_char)

lemma digit_val_digit_char: "d < 10 \<Longrightarrow> digit_val (digit_char d) = d"
  by (simp add: digit_val_def of_char_digit_char)

lemma str_nat_digits: "\<forall>c\<in>set (str_nat n). is_digit c"
proof (induction n rule: str_nat.induct)
  case (1 n)
  show ?case
  proof (cases "n < 10")
    case True
    then show ?thesis by (subst str_nat.simps) (simp add: is_digit_digit_char)
  next
    case False
    have "n mod 10 < 10" by simp
    then have "is_digit (digit_char (n mod 10))" by (rule is_digit_digit_char)
    with False "1.IH" show ?thesis by (subst str_nat.simps) simp
  qed
qed

lemma str_nat_not_Nil: "str_nat n \<noteq> []"
  by (subst str_nat.simps) simp

lemma is_digit_not_underscore: "is_digit c \<Longrightarrow> c \<noteq> CHR ''_''"
  by (auto simp: is_digit_def)

lemma parse_digits_snoc:
  "\<forall>c\<in>set xs. is_digit c \<Longrightarrow> is_digit d \<Longrightarrow>
     parse_digits acc (xs @ [d]) =
       map_option (\<lambda>a. a * 10 + digit_val d) (parse_digits acc xs)"
  by (induction xs arbitrary: acc) (simp_all add: is_digit_not_underscore)

lemma parse_nat_snoc:
  "xs \<noteq> [] \<Longrightarrow> \<forall>c\<in>set xs. is_digit c \<Longrightarrow> is_digit d \<Longrightarrow>
     parse_nat (xs @ [d]) = map_option (\<lambda>a. a * 10 + digit_val d) (parse_nat xs)"
  by (cases xs) (simp_all add: parse_nat_def parse_digits_snoc)

lemma parse_nat_str_nat: "parse_nat (str_nat n) = Some n"
proof (induction n rule: str_nat.induct)
  case (1 n)
  show ?case
  proof (cases "n < 10")
    case True
    then show ?thesis
      by (subst str_nat.simps) (simp add: parse_nat_def is_digit_digit_char digit_val_digit_char)
  next
    case False
    have d: "n mod 10 < 10" by simp
    have "parse_nat (str_nat (n div 10) @ [digit_char (n mod 10)]) =
        map_option (\<lambda>a. a * 10 + digit_val (digit_char (n mod 10))) (parse_nat (str_nat (n div 10)))"
      by (rule parse_nat_snoc) (simp_all add: str_nat_not_Nil str_nat_digits is_digit_digit_char d)
    also have "\<dots> = Some (n div 10 * 10 + n mod 10)"
      using "1.IH" False by (simp add: digit_val_digit_char d)
    finally show ?thesis
      using False by (subst str_nat.simps) simp
  qed
qed

lemma hd_str_nat_digit: "is_digit (hd (str_nat n))"
  using str_nat_digits [of n] str_nat_not_Nil [of n] by (cases "str_nat n") auto

lemma parse_signed_str_int: "parse_signed (str_int i) = Some i"
proof (cases "i < 0")
  case True
  then show ?thesis
    by (simp add: str_int_def parse_signed_def parse_nat_str_nat)
next
  case False
  obtain c cs where s: "str_nat (nat i) = c # cs"
    using str_nat_not_Nil [of "nat i"] by (cases "str_nat (nat i)") auto
  have "is_digit c" using hd_str_nat_digit [of "nat i"] s by simp
  then have "c \<noteq> CHR ''-''" and "c \<noteq> CHR ''+''"
    by (auto simp: is_digit_def)
  moreover have "parse_nat (c # cs) = Some (nat i)"
    using parse_nat_str_nat [of "nat i"] s by simp
  ultimately show ?thesis
    using False by (simp add: str_int_def parse_signed_def s)
qed

definition int_char :: "char \<Rightarrow> bool" where
  "int_char c \<longleftrightarrow> is_digit c \<or> c = CHR ''-''"

lemma str_int_chars: "\<forall>c\<in>set (str_int i). int_char c"
  using str_nat_digits by (auto simp: str_int_def int_char_def)

lemma str_int_not_Nil: "str_int i \<noteq> []"
  by (simp add: str_int_def str_nat_not_Nil)

lemma int_char_facts:
  "int_char c \<Longrightarrow>
     \<not> is_space c \<and> \<not> is_number_space c \<and> c \<noteq> CHR '','' \<and> c \<noteq> LF \<and> c \<noteq> CR"
  by (auto simp: int_char_def is_digit_def is_space_def is_number_space_def LF_def CR_def)

lemma strip_number_id:
  assumes "s \<noteq> []" and "\<not> is_number_space (hd s)" and "\<not> is_number_space (last s)"
  shows "strip_number s = s"
proof -
  from assms(1,2) have "dropWhile is_number_space s = s" by (cases s) simp_all
  moreover from assms(1,3) have "dropWhile is_number_space (rev s) = rev s"
    by (cases "rev s") (simp_all add: last_rev [symmetric] hd_rev)
  ultimately show ?thesis by (simp add: strip_number_def)
qed

lemma py_int_str_int: "py_int (str_int i) = Some i"
proof -
  have "int_char (hd (str_int i))" and "int_char (last (str_int i))"
    using str_int_chars [of i] str_int_not_Nil [of i] by simp_all
  then have "strip_number (str_int i) = str_int i"
    using str_int_not_Nil int_char_facts by (intro strip_number_id) blast+
  then show ?thesis by (simp add: py_int_def parse_signed_str_int)
qed

lemma has_sep_comma: "has_sep s \<Longrightarrow> CHR '','' \<in> set s"
  by (induction s rule: has_sep.induct) auto

lemma plain_str_int: "plain_text (str_int i)"
  using str_int_chars [of i] int_char_facts has_sep_comma [of "str_int i"]
  by (auto simp: plain_text_def)

lemma split_sep_field:
  "\<not> has_sep f \<Longrightarrow> split_sep (f @ CHR '','' # CHR '' '' # rest) = f # split_sep rest"
proof (induction f)
  case Nil
  show ?case by simp
next
  case (Cons c cs)
  show ?case
  proof (cases cs)
    case Nil
    then show ?thesis by simp
  next
    case (Cons d ds)
    with Cons.prems have no: "\<not> (c = CHR '','' \<and> d = CHR '' '')" and "\<not> has_sep cs"
      by simp_all
    then have "split_sep (cs @ CHR '','' # CHR '' '' # rest) = cs # split_sep rest"
      using Cons.IH by simp
    with no Cons show ?thesis by simp
  qed
qed

lemma split_sep_last: "\<not> has_sep f \<Longrightarrow> split_sep f = [f]"
proof (induction f)
  case Nil
  show ?case by simp
next
  case (Cons c cs)
  show ?case
  proof (cases cs)
    case Nil
    then show ?thesis by simp
  next
    case (Cons d ds)
    with Cons.prems have no: "\<not> (c = CHR '','' \<and> d = CHR '' '')" and "\<not> has_sep cs"
      by simp_all
    then have "split_sep cs = [cs]" using Cons.IH by simp
    with no Cons show ?thesis by simp
  qed
qed

lemma split_sep_six:
  assumes "\<not> has_sep a" "\<not> has_sep b" "\<not> has_sep c" "\<not> has_sep d" "\<not> has_sep e"
    "\<not> has_sep f"
  shows "split_sep (a @ '', '' @ b @ '', '' @ c @ '', '' @ d @ '', '' @ e @ '', '' @ f) =
    [a, b, c, d, e, f]"
  using assms by (simp add: split_sep_field split_sep_last)

lemma strip_line:
  assumes "s \<noteq> []" and "\<not> is_space (hd s)" and "\<not> is_space (last s)"
  shows "strip (s @ [LF]) = s"
proof -
  have "is_space LF" by (simp add: is_space_def LF_def)
  from assms(1,2) have "dropWhile is_space (s @ [LF]) = s @ [LF]"
    by (cases s) simp_all
  moreover from assms(1,3) have "dropWhile is_space (rev s) = rev s"
    by (cases "rev s") (simp_all add: last_rev [symmetric] hd_rev)
  ultimately show ?thesis
    using \<open>is_space LF\<close> by (simp add: strip_def)
qed

lemma readlines_line:
  "LF \<notin> set body \<Longrightarrow> readlines (body @ LF # rest) = (body @ [LF]) # readlines rest"
  by (induction body) auto

lemma universal_newlines_id: "CR \<notin> set s \<Longrightarrow> universal_newlines s = s"
  by (induction s) auto

definition line_body :: "'f float_ops \<Rightarrow> 'f product \<Rightarrow> string" where
  \<comment> \<open>the line of a product in the file, without its line feed\<close>
  "line_body ops product =
     str_int (p_id product) @ '', '' @ p_name product @ '', '' @ p_brand product @ '', '' @
     str_int (p_stock product) @ '', '' @ float_repr ops (p_cost_price product) @ '', '' @
     p_origin product"

lemma format_product_body: "format_product ops p = line_body ops p @ [LF]"
  by (simp add: format_product_def line_body_def)

lemma line_body_ends:
  assumes "storable ops p"
  shows "line_body ops p \<noteq> []" and "\<not> is_space (hd (line_body ops p))"
    and "\<not> is_space (last (line_body ops p))"
proof -
  show "line_body ops p \<noteq> []"
    by (simp add: line_body_def str_int_not_Nil)
  have "int_char (hd (str_int (p_id p)))"
    using str_int_chars [of "p_id p"] str_int_not_Nil [of "p_id p"] by simp
  then show "\<not> is_space (hd (line_body ops p))"
    using int_char_facts by (simp add: line_body_def str_int_not_Nil)
  from assms show "\<not> is_space (last (line_body ops p))"
    by (simp add: line_body_def storable_def)
qed

lemma line_body_plain:
  assumes "storable ops p"
  shows "LF \<notin> set (line_body ops p)" and "CR \<notin> set (line_body ops p)"
proof -
  have sep: "LF \<notin> set '', ''" "CR \<notin> set '', ''"
    by (simp_all add: LF_def CR_def)
  from assms plain_str_int [of "p_id p"] plain_str_int [of "p_stock p"] sep
  show "LF \<notin> set (line_body ops p)" and "CR \<notin> set (line_body ops p)"
    by (simp_all add: line_body_def storable_def plain_text_def)
qed

lemma strip_format_product:
  "storable ops p \<Longrightarrow> strip (format_product ops p) = line_body ops p"
  unfolding format_product_body by (rule strip_line) (simp_all add: line_body_ends)

lemma parse_line_format_product:
  assumes "storable ops p"
  shows "parse_line ops (format_product ops p) = Inr p"
proof -
  have "split_sep (line_body ops p) =
      [str_int (p_id p), p_name p, p_brand p, str_int (p_stock p),
       float_repr ops (p_cost_price p), p_origin p]"
    unfolding line_body_def
    using assms plain_str_int [of "p_id p"] plain_str_int [of "p_stock p"]
    by (intro split_sep_six) (simp_all add: storable_def plain_text_def)
  with assms show ?thesis
    by (simp add: parse_line_def strip_format_product py_int_str_int storable_def)
qed

lemma read_products_formatted:
  "\<forall>p\<in>set ps. storable ops p \<Longrightarrow>
     read_products ops acc (map (format_product ops) ps) = Inr (acc @ ps)"
proof (induction ps arbitrary: acc)
  case Nil
  show ?case by simp
next
  case (Cons p ps)
  then have p: "storable ops p" by simp
  then have "strip (format_product ops p) \<noteq> []"
    by (simp add: strip_format_product line_body_ends)
  with Cons p show ?case
    by (simp add: parse_line_format_product)
qed

lemma readlines_formatted:
  "\<forall>p\<in>set ps. storable ops p \<Longrightarrow>
     readlines (concat (map (format_product ops) ps)) = map (format_product ops) ps"
proof (induction ps)
  case Nil
  show ?case by simp
next
  case (Cons p ps)
  then have "LF \<notin> set (line_body ops p)" by (simp add: line_body_plain)
  then have "readlines (line_body ops p @ LF # concat (map (format_product ops) ps)) =
      (line_body ops p @ [LF]) # readlines (concat (map (format_product ops) ps))"
    by (rule readlines_line)
  moreover have "readlines (concat (map (format_product ops) ps)) = map (format_product ops) ps"
    using Cons by simp
  ultimately show ?case by (simp add: format_product_body [of ops p])
qed

lemma no_CR_formatted:
  "\<forall>p\<in>set ps. storable ops p \<Longrightarrow> CR \<notin> set (concat (map (format_product ops) ps))"
proof -
  assume "\<forall>p\<in>set ps. storable ops p"
  moreover have "CR \<noteq> LF" by (simp add: CR_def LF_def)
  ultimately show ?thesis
    by (auto simp: format_product_body dest: line_body_plain(2))
qed

text \<open>
  C1, as amended.  For every list of products whose names, brands and origins contain no
  comma-space, no line feed and no carriage return, whose origins are not empty and do not
  end in whitespace, and whose cost prices print as such plain text and are read back by
  \<open>float\<close> from what they print as: \<open>load_products\<close> on the file that
  \<open>save_products\<close> has written returns that list.
\<close>

theorem save_load_roundtrip:
  assumes "\<forall>p\<in>set products. storable ops p"
  shows "load_products ops (save_products ops products fs fname) fname =
           (save_products ops products fs fname, Inr products)"
proof -
  let ?content = "concat (map (format_product ops) products)"
  have "universal_newlines ?content = ?content"
    using assms by (intro universal_newlines_id no_CR_formatted)
  then have "read_products ops [] (readlines (universal_newlines ?content)) = Inr products"
    using assms by (simp add: readlines_formatted read_products_formatted)
  then show ?thesis
    by (subst load_products.simps) (simp add: save_products_def)
qed

theorem save_load_roundtrip_witness:
  "load_products whole_ops (save_products whole_ops sample_products Map.empty ''products.txt'')
     ''products.txt'' =
   (save_products whole_ops sample_products Map.empty ''products.txt'', Inr sample_products)"
proof -
  have "\<forall>p\<in>set sample_products. storable whole_ops p"
    by code_simp
  then show ?thesis by (rule save_load_roundtrip)
qed

text \<open>
  C1, as stated, fails for an origin that ends in a space: no field has a comma-space or a
  line feed and the cost price is read back from what it prints as, but \<open>strip\<close>
  removes the space together with the line feed, and the product comes back with another
  origin.
\<close>

theorem save_load_roundtrip_counterexample:
  "\<not> has_sep ''Face Wash'' \<and> LF \<notin> set ''Face Wash''
   \<and> \<not> has_sep ''Himalaya'' \<and> LF \<notin> set ''Himalaya''
   \<and> \<not> has_sep ''Nepal '' \<and> LF \<notin> set ''Nepal ''
   \<and> float_parse whole_ops (float_repr whole_ops 200) = Some 200
   \<and> snd (load_products whole_ops
        (save_products whole_ops
           [\<lparr> p_id = 4, p_name = ''Face Wash'', p_brand = ''Himalaya'', p_stock = 50,
              p_cost_price = 200, p_origin = ''Nepal '' \<rparr>] Map.empty ''products.txt'')
        ''products.txt'') =
       Inr [\<lparr> p_id = 4, p_name = ''Face Wash'', p_brand = ''Himalaya'', p_stock = 50,
              p_cost_price = 200, p_origin = ''Nepal'' \<rparr>]
   \<and> snd (load_products whole_ops
        (save_products whole_ops
           [\<lparr> p_id = 4, p_name = ''Face Wash'', p_brand = ''Himalaya'', p_stock = 50,
              p_cost_price = 200, p_origin = ''Nepal '' \<rparr>] Map.empty ''products.txt'')
        ''products.txt'') \<noteq>
       Inr [\<lparr> p_id = 4, p_name = ''Face Wash'', p_brand = ''Himalaya'', p_stock = 50,
              p_cost_price = 200, p_origin = ''Nepal '' \<rparr>]"
  by code_simp

end
